theory Spec2Isabelle
  imports Complex_Main "HOL-Library.Product_Lexorder" "HOL-Library.Char_ord"
    "HOL-Library.List_Lexorder"
begin

section \<open>Data model of the cashflow backend\<close>

text \<open>
  The edge functions talk to three tables of the relational store: \<open>users\<close> (profiles),
  \<open>categories\<close> and \<open>transactions\<close>. A table is the list of its rows; identifiers are the
  strings the handlers compare; timestamps and calendar dates are natural numbers (a
  position on the time line), compared as the store compares them. Amounts are exact
  rationals (the column is \<open>DECIMAL(10,2)\<close>); the rounding of JavaScript numbers is not
  part of the model.
\<close>

type_synonym ident = string
type_synonym timestamp = nat
type_synonym caldate = nat

text \<open>
  A JSON value, as far as the handlers look at it. \<open>JOther\<close> stands for arrays and objects.
  A JSON object is a map from property names to values.
\<close>

datatype jvalue = JNull | JBool bool | JNum rat | JStr string | JOther

type_synonym jobject = "string \<rightharpoonup> jvalue"

text \<open>
  A profile row. The columns the handlers read are fields; \<open>other\<close> holds the remaining
  columns of the table (\<open>username\<close>, \<open>bio\<close>, \<open>preferences\<close>, ...).
\<close>

record profile =
  u_id :: ident
  email :: string
  full_name :: string
  is_staff :: bool
  other :: jobject

record category =
  c_id :: ident
  c_name :: string
  c_type :: string
  color :: string
  icon :: string
  c_user_id :: ident

record transaction =
  t_id :: ident
  user_id :: ident
  category_id :: "ident option"
  t_type :: string
  amount :: rat
  description :: string
  date :: caldate
  tags :: "string list"
  t_notes :: "string option"
  is_paid :: bool
  paid_at :: "timestamp option"
  created_at :: timestamp

record db =
  users_tbl :: "profile list"
  categories_tbl :: "category list"
  transactions_tbl :: "transaction list"

text \<open>
  \<open>HttpError\<close> of the source carries a status and a message. The messages are the fixed
  texts of the handlers; each constructor below stands for one of them:
  \<^item> \<open>Unauthorized\<close>: 'Unauthorized' (\<open>requireAuth\<close>);
  \<^item> \<open>MissingFields fs\<close>: 'Parametros obrigatorios ausentes: ...' (\<open>requireFields\<close>);
  \<^item> \<open>CategoryIdRequired\<close>, \<open>TransactionIdRequired\<close>: 'ID da ... e obrigatorio';
  \<^item> \<open>CategoryNotFound\<close>, \<open>TransactionNotFound\<close>: '... nao encontrada';
  \<^item> \<open>CategoryNotOwned\<close>: 'Categoria nao encontrada ou nao pertence ao usuario';
  \<^item> \<open>CategoryInUse\<close>: 'Nao e possivel deletar categoria que possui transacoes associadas';
  \<^item> \<open>AlreadyPaid\<close>, \<open>AlreadyUnpaid\<close>: 'Transacao ja esta marcada como (nao) paga';
  \<^item> \<open>InvalidType\<close>, \<open>EmptyName\<close>, \<open>NoUpdateField\<close>: the validation texts of the category
    handlers;
  \<^item> \<open>ForbiddenStaffOnly\<close>: 'Forbidden (somente staff)'; \<open>InsufficientPermissions\<close>:
    'Insufficient permissions';
  \<^item> \<open>StoreMessage\<close>: the message of an error returned by the store, passed through;
  \<^item> \<open>BodyNotJson\<close>: the message of the exception of \<open>req.json()\<close>, sent with status 500
    by the users function; \<open>AuthCreateFailed\<close>: 'Failed to create user in auth: ...'.
\<close>

datatype message =
    Unauthorized
  | MissingFields "string list"
  | CategoryIdRequired
  | TransactionIdRequired
  | CategoryNotFound
  | TransactionNotFound
  | CategoryNotOwned
  | CategoryInUse
  | AlreadyPaid
  | AlreadyUnpaid
  | InvalidType
  | EmptyName
  | NoUpdateField
  | ForbiddenStaffOnly
  | InsufficientPermissions
  | StoreMessage
  | BodyNotJson
  | AuthCreateFailed

datatype http_error = HttpError nat message

section \<open>The store as the handlers use it\<close>

text \<open>
  Two clients reach the store. The \<open>admin\<close> client (service role) sees every row. The
  \<open>authed\<close> client carries the caller's token, so the row-level policies of the
  migrations apply: on each of the three tables a row is visible, updatable and
  deletable only when \<open>auth.uid()\<close> equals its owner column.
\<close>

definition rls_users :: "ident \<Rightarrow> profile list \<Rightarrow> profile list" where
  "rls_users uid ps = filter (\<lambda>p. u_id p = uid) ps"

definition rls_categories :: "ident \<Rightarrow> category list \<Rightarrow> category list" where
  "rls_categories uid cs = filter (\<lambda>c. c_user_id c = uid) cs"

definition rls_transactions :: "ident \<Rightarrow> transaction list \<Rightarrow> transaction list" where
  "rls_transactions uid ts = filter (\<lambda>t. user_id t = uid) ts"

text \<open>\<open>.single()\<close>: exactly one row, otherwise the store reports an error.\<close>

fun single :: "'a list \<Rightarrow> 'a option" where
  "single [x] = Some x"
| "single _ = None"

text \<open>\<open>requireAuth\<close>: the identity provider resolved the bearer token to a user id, or not.\<close>

definition requireAuth :: "ident option \<Rightarrow> http_error + ident" where
  "requireAuth auth = (case auth of None \<Rightarrow> Inl (HttpError 401 Unauthorized) | Some uid \<Rightarrow> Inr uid)"

text \<open>
  The staff lookup every scoped handler starts with:
  \<open>authed.from('users').select('is_staff').eq('id', user.id).single()\<close>.
\<close>

definition staff_lookup :: "db \<Rightarrow> ident \<Rightarrow> http_error + bool" where
  "staff_lookup d uid =
     (case single (filter (\<lambda>p. u_id p = uid) (rls_users uid (users_tbl d))) of
        None \<Rightarrow> Inl (HttpError 400 StoreMessage)
      | Some p \<Rightarrow> Inr (is_staff p))"

section \<open>Summary\<close>






text \<open>
  The query of \<open>summary\<close>: the caller's rows, with \<open>gte\<close>/\<open>lte\<close> on the date when the
  parameter is a non-empty string (\<open>None\<close> stands for an absent or empty parameter).
\<close>

definition date_filter :: "caldate option \<Rightarrow> caldate option \<Rightarrow> transaction list \<Rightarrow> transaction list" where
  "date_filter startDate endDate rows =
     (let r1 = (case startDate of None \<Rightarrow> rows | Some s \<Rightarrow> filter (\<lambda>t. s \<le> date t) rows)
      in (case endDate of None \<Rightarrow> r1 | Some e \<Rightarrow> filter (\<lambda>t. date t \<le> e) r1))"



text \<open>The \<open>CHECK (type IN ('income', 'expense'))\<close> constraint of the transactions table.\<close>

definition valid_type :: "string \<Rightarrow> bool" where
  "valid_type s = (s = ''income'' \<or> s = ''expense'')"


section \<open>Read handlers\<close>

text \<open>
  \<open>select('id, email, full_name, is_staff')\<close> on the profile table: the summary of a
  profile that the read handlers attach to a row.
\<close>

record user_info =
  i_id :: ident
  i_email :: string
  i_full_name :: string
  i_is_staff :: bool

definition select_info :: "profile \<Rightarrow> user_info" where
  "select_info p = \<lparr>i_id = u_id p, i_email = email p, i_full_name = full_name p,
     i_is_staff = is_staff p\<rparr>"

text \<open>
  A row as a read handler returns it: the row, the category embedded by
  \<open>category:categories(*)\<close> (transactions only) and the \<open>user\<close> property. A property
  whose value is \<open>undefined\<close> (\<open>find\<close> without a match) is \<open>None\<close>.
\<close>

record category_view =
  cat :: category
  cat_user :: "user_info option"

record transaction_view =
  tx :: transaction
  tx_category :: "category option"
  tx_user :: "user_info option"

definition embed_category :: "category list \<Rightarrow> transaction \<Rightarrow> category option" where
  "embed_category cats t =
     (case category_id t of None \<Rightarrow> None | Some cid \<Rightarrow> find (\<lambda>c. c_id c = cid) cats)"

text \<open>
  The query parameters of \<open>GET /transactions\<close>. \<open>None\<close> is a parameter that is not in
  the URL (\<open>searchParams.get\<close> gives \<open>null\<close>); for the two dates it also stands for the
  empty string, which the handler treats alike. \<open>limit\<close> and \<open>offset\<close> are the parsed
  numbers, \<open>None\<close> when the parameter is absent or empty; texts that \<open>parseInt\<close> does not
  read as a natural number are outside the model.
\<close>

record list_query =
  start_date :: "caldate option"
  end_date :: "caldate option"
  q_type :: "string option"
  q_category_id :: "string option"
  q_is_paid :: "string option"
  q_limit :: "nat option"
  q_offset :: "nat option"

text \<open>JavaScript truthiness of an optional string: present and not empty.\<close>

definition nonempty :: "string option \<Rightarrow> bool" where
  "nonempty so = (case so of None \<Rightarrow> False | Some s \<Rightarrow> s \<noteq> [])"

text \<open>
  The filters of the listing, in the order the handler adds them. The non-staff branch
  adds them to the query, the staff branch applies them to the array it has fetched
  (there the dates are compared as ISO strings, which orders them as dates). Any value
  of \<open>is_paid\<close> other than \<open>''true''\<close> selects the unpaid rows.
\<close>

definition apply_filters :: "list_query \<Rightarrow> transaction list \<Rightarrow> transaction list" where
  "apply_filters q rows =
     (let r2 = date_filter (start_date q) (end_date q) rows;
          r3 = (if nonempty (q_type q) then filter (\<lambda>t. Some (t_type t) = q_type q) r2 else r2);
          r4 = (if nonempty (q_category_id q)
                then filter (\<lambda>t. category_id t = q_category_id q) r3 else r3)
      in (case q_is_paid q of
            None \<Rightarrow> r4
          | Some s \<Rightarrow> filter (\<lambda>t. is_paid t = (s = ''true'')) r4))"

text \<open>
  \<open>.order('date', desc).order('created_at', desc)\<close> and \<open>.order('type').order('name')\<close>.
  The store leaves the order of rows with equal keys open; the model keeps them in
  table order (reversed for the descending sort). Strings are compared character by
  character.
\<close>

definition order_transactions :: "transaction list \<Rightarrow> transaction list" where
  "order_transactions rows = rev (sort_key (\<lambda>t. (date t, created_at t)) rows)"

definition order_categories :: "category list \<Rightarrow> category list" where
  "order_categories cs = sort_key (\<lambda>c. (c_type c, c_name c)) cs"

text \<open>\<open>.range(offset, offset + limit - 1)\<close>: at most \<open>limit\<close> rows from position \<open>offset\<close> on.\<close>

definition range_window :: "nat \<Rightarrow> nat \<Rightarrow> 'a list \<Rightarrow> 'a list" where
  "range_window start count rows = take count (drop start rows)"

definition limit_of :: "list_query \<Rightarrow> nat" where
  "limit_of q = (case q_limit q of None \<Rightarrow> 50 | Some n \<Rightarrow> n)"

definition offset_of :: "list_query \<Rightarrow> nat" where
  "offset_of q = (case q_offset q of None \<Rightarrow> 0 | Some n \<Rightarrow> n)"

text \<open>\<open>admin.from('users').select('id, email, full_name, is_staff').in('id', userIds)\<close>.\<close>

definition users_in :: "db \<Rightarrow> ident list \<Rightarrow> user_info list" where
  "users_in d userIds = map select_info (filter (\<lambda>p. u_id p \<in> set userIds) (users_tbl d))"

text \<open>\<open>authed.from('users').select('id, email, full_name, is_staff').eq('id', user.id).single()\<close>.\<close>

definition own_info :: "db \<Rightarrow> ident \<Rightarrow> user_info option" where
  "own_info d uid =
     map_option select_info (single (filter (\<lambda>p. u_id p = uid) (rls_users uid (users_tbl d))))"

text \<open>\<open>GET /categories\<close>.\<close>

definition categories :: "db \<Rightarrow> ident option \<Rightarrow> http_error + category_view list" where
  "categories d auth =
     (case requireAuth auth of
        Inl e \<Rightarrow> Inl e
      | Inr uid \<Rightarrow>
          (case staff_lookup d uid of
             Inl e \<Rightarrow> Inl e
           | Inr staff \<Rightarrow>
               if staff then
                 (let cats = order_categories (categories_tbl d);
                      userIds = remdups (map c_user_id cats);
                      us = users_in d userIds
                  in Inr (map (\<lambda>c. \<lparr>cat = c, cat_user = find (\<lambda>u. i_id u = c_user_id c) us\<rparr>) cats))
               else
                 (let cats = order_categories
                       (filter (\<lambda>c. c_user_id c = uid) (rls_categories uid (categories_tbl d)))
                  in (case own_info d uid of
                        None \<Rightarrow> Inl (HttpError 400 StoreMessage)
                      | Some userInfo \<Rightarrow>
                          Inr (map (\<lambda>c. \<lparr>cat = c, cat_user = Some userInfo\<rparr>) cats)))))"

text \<open>\<open>GET /transactions\<close>.\<close>

definition transactions :: "db \<Rightarrow> ident option \<Rightarrow> list_query \<Rightarrow> http_error + transaction_view list" where
  "transactions d auth q =
     (case requireAuth auth of
        Inl e \<Rightarrow> Inl e
      | Inr uid \<Rightarrow>
          (case staff_lookup d uid of
             Inl e \<Rightarrow> Inl e
           | Inr staff \<Rightarrow>
               if staff then
                 (let fetched = range_window (offset_of q) (limit_of q)
                                  (order_transactions (transactions_tbl d));
                      filteredTransactions = apply_filters q fetched;
                      userIds = remdups (map user_id filteredTransactions);
                      us = users_in d userIds
                  in Inr (map (\<lambda>t. \<lparr>tx = t, tx_category = embed_category (categories_tbl d) t,
                                      tx_user = find (\<lambda>u. i_id u = user_id t) us\<rparr>)
                            filteredTransactions))
               else
                 (let rows = range_window (offset_of q) (limit_of q)
                               (order_transactions
                                 (apply_filters q
                                   (filter (\<lambda>t. user_id t = uid)
                                     (rls_transactions uid (transactions_tbl d)))))
                  in (case own_info d uid of
                        None \<Rightarrow> Inl (HttpError 400 StoreMessage)
                      | Some userInfo \<Rightarrow>
                          Inr (map (\<lambda>t. \<lparr>tx = t,
                                 tx_category = embed_category (rls_categories uid (categories_tbl d)) t,
                                 tx_user = Some userInfo\<rparr>) rows)))))"

text \<open>
  \<open>GET /categories/:id\<close> and \<open>GET /transactions/:id\<close>. The id is the last segment of
  the path; the owner's profile is read with the \<open>admin\<close> client.
\<close>

definition owner_info :: "db \<Rightarrow> ident \<Rightarrow> user_info option" where
  "owner_info d owner = map_option select_info (single (filter (\<lambda>p. u_id p = owner) (users_tbl d)))"

definition getCategory :: "db \<Rightarrow> ident option \<Rightarrow> ident \<Rightarrow> http_error + category_view" where
  "getCategory d auth categoryId =
     (case requireAuth auth of
        Inl e \<Rightarrow> Inl e
      | Inr uid \<Rightarrow>
          if categoryId = [] then Inl (HttpError 400 CategoryIdRequired)
          else
            (case staff_lookup d uid of
               Inl e \<Rightarrow> Inl e
             | Inr staff \<Rightarrow>
                 (case (if staff then single (filter (\<lambda>c. c_id c = categoryId) (categories_tbl d))
                        else single (filter (\<lambda>c. c_id c = categoryId \<and> c_user_id c = uid)
                                       (rls_categories uid (categories_tbl d)))) of
                    None \<Rightarrow> Inl (HttpError 404 CategoryNotFound)
                  | Some c \<Rightarrow>
                      (case owner_info d (c_user_id c) of
                         None \<Rightarrow> Inl (HttpError 400 StoreMessage)
                       | Some userInfo \<Rightarrow> Inr \<lparr>cat = c, cat_user = Some userInfo\<rparr>))))"

definition getTransaction :: "db \<Rightarrow> ident option \<Rightarrow> ident \<Rightarrow> http_error + transaction_view" where
  "getTransaction d auth transactionId =
     (case requireAuth auth of
        Inl e \<Rightarrow> Inl e
      | Inr uid \<Rightarrow>
          if transactionId = [] then Inl (HttpError 400 TransactionIdRequired)
          else
            (case staff_lookup d uid of
               Inl e \<Rightarrow> Inl e
             | Inr staff \<Rightarrow>
                 (case (if staff
                        then map_option (\<lambda>t. (t, embed_category (categories_tbl d) t))
                               (single (filter (\<lambda>t. t_id t = transactionId) (transactions_tbl d)))
                        else map_option (\<lambda>t. (t, embed_category (rls_categories uid (categories_tbl d)) t))
                               (single (filter (\<lambda>t. t_id t = transactionId \<and> user_id t = uid)
                                          (rls_transactions uid (transactions_tbl d))))) of
                    None \<Rightarrow> Inl (HttpError 404 TransactionNotFound)
                  | Some (t, c) \<Rightarrow>
                      (case owner_info d (user_id t) of
                         None \<Rightarrow> Inl (HttpError 400 StoreMessage)
                       | Some userInfo \<Rightarrow>
                           Inr \<lparr>tx = t, tx_category = c, tx_user = Some userInfo\<rparr>))))"


section \<open>Write handlers of the cashflow function\<close>

text \<open>
  \<open>requireFields\<close>: a field is missing when it is \<open>undefined\<close>, \<open>null\<close> or the empty
  string. The argument pairs each field name with whether the field is there.
\<close>

definition requireFields :: "(string \<times> bool) list \<Rightarrow> http_error option" where
  "requireFields fs =
     (let missing = map fst (filter (\<lambda>(f, present). \<not> present) fs)
      in if missing \<noteq> [] then Some (HttpError 400 (MissingFields missing)) else None)"

text \<open>
  The body of \<open>POST /transactions\<close> and \<open>PUT /transactions/:id\<close>, as the handlers
  destructure it; \<open>None\<close> is a property that is not in the body. For the date, \<open>None\<close>
  also stands for the empty string.
\<close>

record tx_payload =
  p_type :: "string option"
  p_amount :: "rat option"
  p_description :: "string option"
  p_date :: "caldate option"
  p_category_id :: "ident option"
  p_tags :: "string list option"
  p_notes :: "string option"
  p_is_paid :: "bool option"

text \<open>
  The category check of create and update:
  \<open>authed.from('categories').select('id').eq('id', category_id).eq('user_id', user.id).single()\<close>
  must give a row.
\<close>

definition category_owned :: "db \<Rightarrow> ident \<Rightarrow> ident \<Rightarrow> bool" where
  "category_owned d uid cid =
     (single (filter (\<lambda>c. c_id c = cid \<and> c_user_id c = uid) (rls_categories uid (categories_tbl d)))
        \<noteq> None)"

text \<open>
  What the store checks on a transaction row: the two \<open>CHECK\<close> constraints and the
  foreign key of \<open>category_id\<close>.
\<close>

definition store_check_tx :: "db \<Rightarrow> transaction \<Rightarrow> bool" where
  "store_check_tx d t =
     (valid_type (t_type t) \<and> 0 < amount t \<and>
      (case category_id t of None \<Rightarrow> True | Some cid \<Rightarrow> cid \<in> set (map c_id (categories_tbl d))))"

text \<open>
  \<open>authed.from('transactions').insert(row)\<close>: the insert policy wants the caller as owner,
  the primary key must be new, the constraints must hold.
\<close>

definition insert_transaction :: "db \<Rightarrow> ident \<Rightarrow> transaction \<Rightarrow> http_error + (transaction \<times> db)" where
  "insert_transaction d uid row =
     (if user_id row = uid \<and> t_id row \<notin> set (map t_id (transactions_tbl d)) \<and> store_check_tx d row
      then Inr (row, d\<lparr>transactions_tbl := transactions_tbl d @ [row]\<rparr>)
      else Inl (HttpError 400 StoreMessage))"

text \<open>
  \<open>authed.from('transactions').update(f).eq('id', tid).eq('user_id', uid).select().single()\<close>:
  the statement fails, and changes nothing, unless exactly one row is updated and the
  new row passes the constraints. (An update without columns is taken as a write that
  changes nothing.)
\<close>

definition own_transaction :: "db \<Rightarrow> ident \<Rightarrow> ident \<Rightarrow> transaction option" where
  "own_transaction d uid tid =
     single (filter (\<lambda>t. t_id t = tid \<and> user_id t = uid) (rls_transactions uid (transactions_tbl d)))"

definition update_transaction ::
  "db \<Rightarrow> ident \<Rightarrow> ident \<Rightarrow> (transaction \<Rightarrow> transaction) \<Rightarrow> http_error + (transaction \<times> db)" where
  "update_transaction d uid tid f =
     (case own_transaction d uid tid of
        None \<Rightarrow> Inl (HttpError 400 StoreMessage)
      | Some t \<Rightarrow>
          if store_check_tx d (f t)
          then Inr (f t, d\<lparr>transactions_tbl :=
                 map (\<lambda>r. if t_id r = tid \<and> user_id r = uid then f r else r) (transactions_tbl d)\<rparr>)
          else Inl (HttpError 400 StoreMessage))"

text \<open>The row with its category, as \<open>select('*, category:categories(*)')\<close> returns it.\<close>

definition with_category :: "db \<Rightarrow> ident \<Rightarrow> transaction \<Rightarrow> transaction_view" where
  "with_category d uid t =
     \<lparr>tx = t, tx_category = embed_category (rls_categories uid (categories_tbl d)) t, tx_user = None\<rparr>"

text \<open>
  \<open>POST /transactions\<close>. \<open>now\<close> is \<open>new Date().toISOString()\<close>, \<open>today\<close> its date part,
  \<open>new_id\<close> the identifier the store generates; \<open>created_at\<close> is the store's \<open>NOW()\<close>,
  taken to be the same instant.
\<close>

definition new_transaction :: "ident \<Rightarrow> timestamp \<Rightarrow> caldate \<Rightarrow> ident \<Rightarrow> tx_payload \<Rightarrow> transaction" where
  "new_transaction uid now today new_id p =
     \<lparr>t_id = new_id, user_id = uid,
      category_id = (if nonempty (p_category_id p) then p_category_id p else None),
      t_type = (case p_type p of None \<Rightarrow> [] | Some s \<Rightarrow> s),
      amount = (case p_amount p of None \<Rightarrow> 0 | Some a \<Rightarrow> a),
      description = (case p_description p of None \<Rightarrow> [] | Some s \<Rightarrow> s),
      date = (case p_date p of None \<Rightarrow> today | Some dt \<Rightarrow> dt),
      tags = (case p_tags p of None \<Rightarrow> [] | Some ts \<Rightarrow> ts),
      t_notes = (if nonempty (p_notes p) then p_notes p else None),
      is_paid = (case p_is_paid p of None \<Rightarrow> False | Some b \<Rightarrow> b),
      paid_at = (if p_is_paid p = Some True then Some now else None),
      created_at = now\<rparr>"

definition createTransaction ::
  "db \<Rightarrow> ident option \<Rightarrow> timestamp \<Rightarrow> caldate \<Rightarrow> ident \<Rightarrow> tx_payload \<Rightarrow> http_error + (transaction_view \<times> db)" where
  "createTransaction d auth now today new_id p =
     (case requireAuth auth of
        Inl e \<Rightarrow> Inl e
      | Inr uid \<Rightarrow>
          (case requireFields [(''type'', nonempty (p_type p)), (''amount'', p_amount p \<noteq> None),
                               (''description'', nonempty (p_description p))] of
             Some e \<Rightarrow> Inl e
           | None \<Rightarrow>
               if nonempty (p_category_id p) \<and>
                  \<not> category_owned d uid (case p_category_id p of None \<Rightarrow> [] | Some c \<Rightarrow> c)
               then Inl (HttpError 400 CategoryNotOwned)
               else
                 (case insert_transaction d uid (new_transaction uid now today new_id p) of
                    Inl e \<Rightarrow> Inl e
                  | Inr (row, d') \<Rightarrow> Inr (with_category d' uid row, d'))))"

text \<open>
  \<open>PUT /transactions/:id\<close>. \<open>updateData\<close> holds the properties of the body that pass the
  handler's tests; the function below is the row with \<open>updateData\<close> written over it.
\<close>

definition updateData :: "tx_payload \<Rightarrow> timestamp \<Rightarrow> transaction \<Rightarrow> transaction" where
  "updateData p now t =
     t\<lparr>t_type := (case p_type p of None \<Rightarrow> t_type t | Some s \<Rightarrow> if s \<noteq> [] then s else t_type t),
       amount := (case p_amount p of None \<Rightarrow> amount t | Some a \<Rightarrow> if a \<noteq> 0 then a else amount t),
       description := (case p_description p of None \<Rightarrow> description t
                       | Some s \<Rightarrow> if s \<noteq> [] then s else description t),
       date := (case p_date p of None \<Rightarrow> date t | Some dt \<Rightarrow> dt),
       category_id := (case p_category_id p of None \<Rightarrow> category_id t | Some c \<Rightarrow> Some c),
       tags := (case p_tags p of None \<Rightarrow> tags t | Some ts \<Rightarrow> ts),
       t_notes := (case p_notes p of None \<Rightarrow> t_notes t | Some n \<Rightarrow> Some n),
       is_paid := (case p_is_paid p of None \<Rightarrow> is_paid t | Some b \<Rightarrow> b),
       paid_at := (case p_is_paid p of None \<Rightarrow> paid_at t
                   | Some b \<Rightarrow> if b then Some now else None)\<rparr>"

definition updateTransaction ::
  "db \<Rightarrow> ident option \<Rightarrow> timestamp \<Rightarrow> ident \<Rightarrow> tx_payload \<Rightarrow> http_error + (transaction_view \<times> db)" where
  "updateTransaction d auth now transactionId p =
     (case requireAuth auth of
        Inl e \<Rightarrow> Inl e
      | Inr uid \<Rightarrow>
          if transactionId = [] then Inl (HttpError 400 TransactionIdRequired)
          else if nonempty (p_category_id p) \<and>
                  \<not> category_owned d uid (case p_category_id p of None \<Rightarrow> [] | Some c \<Rightarrow> c)
          then Inl (HttpError 400 CategoryNotOwned)
          else
            (case update_transaction d uid transactionId (updateData p now) of
               Inl e \<Rightarrow> Inl e
             | Inr (row, d') \<Rightarrow> Inr (with_category d' uid row, d')))"

text \<open>\<open>DELETE /transactions/:id\<close>: no \<open>.single()\<close>, so deleting nothing is a success.\<close>

definition deleteTransaction :: "db \<Rightarrow> ident option \<Rightarrow> ident \<Rightarrow> http_error + db" where
  "deleteTransaction d auth transactionId =
     (case requireAuth auth of
        Inl e \<Rightarrow> Inl e
      | Inr uid \<Rightarrow>
          if transactionId = [] then Inl (HttpError 400 TransactionIdRequired)
          else Inr (d\<lparr>transactions_tbl :=
                  filter (\<lambda>t. \<not> (t_id t = transactionId \<and> user_id t = uid)) (transactions_tbl d)\<rparr>))"

text \<open>
  \<open>PATCH /transactions/:id/pay\<close>, \<open>/unpay\<close> and \<open>/toggle-payment\<close>. The id is the segment
  before the last one of the path.
\<close>

definition markAsPaid ::
  "db \<Rightarrow> ident option \<Rightarrow> timestamp \<Rightarrow> ident \<Rightarrow> http_error + (transaction_view \<times> db)" where
  "markAsPaid d auth now transactionId =
     (case requireAuth auth of
        Inl e \<Rightarrow> Inl e
      | Inr uid \<Rightarrow>
          if transactionId = [] then Inl (HttpError 400 TransactionIdRequired)
          else
            (case own_transaction d uid transactionId of
               None \<Rightarrow> Inl (HttpError 404 TransactionNotFound)
             | Some t \<Rightarrow>
                 if is_paid t then Inl (HttpError 400 AlreadyPaid)
                 else
                   (case update_transaction d uid transactionId
                           (\<lambda>r. r\<lparr>is_paid := True, paid_at := Some now\<rparr>) of
                      Inl e \<Rightarrow> Inl e
                    | Inr (row, d') \<Rightarrow> Inr (with_category d' uid row, d'))))"

definition markAsUnpaid ::
  "db \<Rightarrow> ident option \<Rightarrow> ident \<Rightarrow> http_error + (transaction_view \<times> db)" where
  "markAsUnpaid d auth transactionId =
     (case requireAuth auth of
        Inl e \<Rightarrow> Inl e
      | Inr uid \<Rightarrow>
          if transactionId = [] then Inl (HttpError 400 TransactionIdRequired)
          else
            (case own_transaction d uid transactionId of
               None \<Rightarrow> Inl (HttpError 404 TransactionNotFound)
             | Some t \<Rightarrow>
                 if \<not> is_paid t then Inl (HttpError 400 AlreadyUnpaid)
                 else
                   (case update_transaction d uid transactionId
                           (\<lambda>r. r\<lparr>is_paid := False, paid_at := None\<rparr>) of
                      Inl e \<Rightarrow> Inl e
                    | Inr (row, d') \<Rightarrow> Inr (with_category d' uid row, d'))))"

definition togglePaymentStatus ::
  "db \<Rightarrow> ident option \<Rightarrow> timestamp \<Rightarrow> ident \<Rightarrow> http_error + (transaction_view \<times> db)" where
  "togglePaymentStatus d auth now transactionId =
     (case requireAuth auth of
        Inl e \<Rightarrow> Inl e
      | Inr uid \<Rightarrow>
          if transactionId = [] then Inl (HttpError 400 TransactionIdRequired)
          else
            (case own_transaction d uid transactionId of
               None \<Rightarrow> Inl (HttpError 404 TransactionNotFound)
             | Some t \<Rightarrow>
                 (let newStatus = \<not> is_paid t
                  in (case update_transaction d uid transactionId
                             (\<lambda>r. r\<lparr>is_paid := newStatus,
                                     paid_at := (if newStatus then Some now else None)\<rparr>) of
                        Inl e \<Rightarrow> Inl e
                      | Inr (row, d') \<Rightarrow> Inr (with_category d' uid row, d')))))"

text \<open>
  \<open>DELETE /categories/:id\<close>. The handler looks for one transaction of the category with
  the \<open>authed\<close> client, then deletes the category; the foreign key of
  \<open>transactions.category_id\<close> is \<open>ON DELETE SET NULL\<close>. The result is the name used in the
  success message.
\<close>

definition deleteCategory :: "db \<Rightarrow> ident option \<Rightarrow> ident \<Rightarrow> http_error + (string \<times> db)" where
  "deleteCategory d auth categoryId =
     (case requireAuth auth of
        Inl e \<Rightarrow> Inl e
      | Inr uid \<Rightarrow>
          if categoryId = [] then Inl (HttpError 400 CategoryIdRequired)
          else
            (case single (filter (\<lambda>c. c_id c = categoryId \<and> c_user_id c = uid)
                            (rls_categories uid (categories_tbl d))) of
               None \<Rightarrow> Inl (HttpError 404 CategoryNotFound)
             | Some c \<Rightarrow>
                 if take 1 (filter (\<lambda>t. category_id t = Some categoryId)
                              (rls_transactions uid (transactions_tbl d))) \<noteq> []
                 then Inl (HttpError 400 CategoryInUse)
                 else Inr (c_name c,
                        d\<lparr>categories_tbl :=
                            filter (\<lambda>c. \<not> (c_id c = categoryId \<and> c_user_id c = uid)) (categories_tbl d),
                          transactions_tbl :=
                            map (\<lambda>t. if category_id t = Some categoryId then t\<lparr>category_id := None\<rparr> else t)
                              (transactions_tbl d)\<rparr>)))"


text \<open>
  The state after a handler has answered: an error leaves the store as it was.
\<close>

definition state_after :: "db \<Rightarrow> http_error + ('a \<times> db) \<Rightarrow> db" where
  "state_after d r = (case r of Inl e \<Rightarrow> d | Inr (x, d') \<Rightarrow> d')"


section \<open>Writes to a transaction, and the paid flag\<close>

text \<open>The five requests that write \<open>is_paid\<close> and \<open>paid_at\<close>, and the state each leaves.\<close>

datatype tx_write =
    Create ident tx_payload
  | Update ident tx_payload
  | MarkPaid ident
  | MarkUnpaid ident
  | Toggle ident

definition run_write :: "db \<Rightarrow> ident option \<Rightarrow> timestamp \<Rightarrow> caldate \<Rightarrow> tx_write \<Rightarrow> db" where
  "run_write d auth now today w =
     (case w of
        Create new_id p \<Rightarrow> state_after d (createTransaction d auth now today new_id p)
      | Update tid p \<Rightarrow> state_after d (updateTransaction d auth now tid p)
      | MarkPaid tid \<Rightarrow> state_after d (markAsPaid d auth now tid)
      | MarkUnpaid tid \<Rightarrow> state_after d (markAsUnpaid d auth tid)
      | Toggle tid \<Rightarrow> state_after d (togglePaymentStatus d auth now tid))"

text \<open>The invariant of the data model: paid exactly when \<open>paid_at\<close> is not null.\<close>

definition paid_inv :: "transaction \<Rightarrow> bool" where
  "paid_inv t = (is_paid t = (paid_at t \<noteq> None))"

text \<open>An update whose body carries \<open>is_paid = true\<close> writes \<open>paid_at = now\<close> whatever the row was.\<close>

definition restamps :: "tx_write \<Rightarrow> bool" where
  "restamps w = (case w of Update tid p \<Rightarrow> p_is_paid p = Some True | _ \<Rightarrow> False)"

text \<open>
  How \<open>paid_at\<close> of a row may move in one write, from \<open>t\<close> to \<open>t'\<close>: set to \<open>now\<close> when the
  flag goes from false to true, cleared when it goes from true to false, and otherwise
  kept, or, where \<open>restamp\<close> allows it, set to \<open>now\<close> again on a row that stays paid.
\<close>

definition paid_step :: "timestamp \<Rightarrow> bool \<Rightarrow> transaction \<Rightarrow> transaction \<Rightarrow> bool" where
  "paid_step now restamp t t' =
     ((\<not> is_paid t \<and> is_paid t' \<longrightarrow> paid_at t' = Some now) \<and>
      (is_paid t \<and> \<not> is_paid t' \<longrightarrow> paid_at t' = None) \<and>
      (is_paid t = is_paid t' \<longrightarrow>
         paid_at t' = paid_at t \<or> (restamp \<and> is_paid t' \<and> paid_at t' = Some now)))"

text \<open>Auxiliary: the shape of the table after a write, used in the proofs.\<close>

definition good_rewrite :: "timestamp \<Rightarrow> bool \<Rightarrow> transaction list \<Rightarrow> (transaction \<Rightarrow> transaction) \<Rightarrow> bool" where
  "good_rewrite now restamp rows g =
     (\<forall>r \<in> set rows. paid_inv r \<longrightarrow>
        paid_inv (g r) \<and> t_id (g r) = t_id r \<and> paid_step now restamp r (g r))"

definition shaped :: "timestamp \<Rightarrow> bool \<Rightarrow> transaction list \<Rightarrow> transaction list \<Rightarrow> bool" where
  "shaped now restamp old new =
     (\<exists>g rows. new = map g old @ rows \<and> list_all paid_inv rows \<and> good_rewrite now restamp old g)"


section \<open>Categories in use\<close>

text \<open>
  The invariant of the data model on category references: the category a transaction
  names, if it exists, belongs to the owner of the transaction.
\<close>

definition refs_owned :: "db \<Rightarrow> bool" where
  "refs_owned d =
     list_all (\<lambda>t. case category_id t of
                      None \<Rightarrow> True
                    | Some cid \<Rightarrow> list_all (\<lambda>c. c_id c = cid \<longrightarrow> c_user_id c = user_id t) (categories_tbl d))
       (transactions_tbl d)"

text \<open>The caller deletes the transactions with the given ids, one request after the other.\<close>

primrec delete_transactions :: "db \<Rightarrow> ident option \<Rightarrow> ident list \<Rightarrow> db" where
  "delete_transactions d auth [] = d"
| "delete_transactions d auth (tid # tids) =
     delete_transactions (case deleteTransaction d auth tid of Inl e \<Rightarrow> d | Inr d' \<Rightarrow> d') auth tids"


section \<open>Category writes\<close>

text \<open>
  \<open>toLowerCase\<close> and \<open>trim\<close>, on the ASCII letters and the ASCII white space; other
  characters are left as they are.
\<close>

definition to_lower :: "char \<Rightarrow> char" where
  "to_lower c = (if CHR ''A'' \<le> c \<and> c \<le> CHR ''Z'' then char_of (of_char c + (32::nat)) else c)"

definition is_space :: "char \<Rightarrow> bool" where
  "is_space c = (c = CHR '' '' \<or> ((9::nat) \<le> of_char c \<and> of_char c \<le> (13::nat)))"

definition trim :: "string \<Rightarrow> string" where
  "trim s = rev (dropWhile is_space (rev (dropWhile is_space s)))"

record category_payload =
  cp_name :: "string option"
  cp_type :: "string option"
  cp_color :: "string option"
  cp_icon :: "string option"

text \<open>The default icon is the money bag, U+1F4B0, in UTF-8.\<close>

definition default_icon :: string where
  "default_icon = [char_of (240::nat), char_of (159::nat), char_of (146::nat), char_of (176::nat)]"

text \<open>
  \<open>authed.from('categories').insert(row)\<close>: the insert policy wants the caller as owner,
  the owner must have a profile, the primary key must be new and the type must pass its
  \<open>CHECK\<close>.
\<close>

definition insert_category :: "db \<Rightarrow> ident \<Rightarrow> category \<Rightarrow> http_error + (category \<times> db)" where
  "insert_category d uid row =
     (if c_user_id row = uid \<and> uid \<in> set (map u_id (users_tbl d)) \<and>
         c_id row \<notin> set (map c_id (categories_tbl d)) \<and> valid_type (c_type row)
      then Inr (row, d\<lparr>categories_tbl := categories_tbl d @ [row]\<rparr>)
      else Inl (HttpError 400 StoreMessage))"

definition createCategory ::
  "db \<Rightarrow> ident option \<Rightarrow> ident \<Rightarrow> category_payload \<Rightarrow> http_error + (category \<times> db)" where
  "createCategory d auth new_id p =
     (case requireAuth auth of
        Inl e \<Rightarrow> Inl e
      | Inr uid \<Rightarrow>
          (case requireFields [(''name'', nonempty (cp_name p)), (''type'', nonempty (cp_type p))] of
             Some e \<Rightarrow> Inl e
           | None \<Rightarrow>
               (let sanitizedType = trim (map to_lower (case cp_type p of None \<Rightarrow> [] | Some s \<Rightarrow> s));
                    sanitizedName = trim (case cp_name p of None \<Rightarrow> [] | Some s \<Rightarrow> s)
                in if \<not> valid_type sanitizedType then Inl (HttpError 400 InvalidType)
                   else if sanitizedName = [] then Inl (HttpError 400 EmptyName)
                   else insert_category d uid
                          \<lparr>c_id = new_id, c_name = sanitizedName, c_type = sanitizedType,
                           color = (case cp_color p of
                                      None \<Rightarrow> ''#3B82F6''
                                    | Some s \<Rightarrow> if trim s = [] then ''#3B82F6'' else trim s),
                           icon = (case cp_icon p of
                                     None \<Rightarrow> default_icon
                                   | Some s \<Rightarrow> if trim s = [] then default_icon else trim s),
                           c_user_id = uid\<rparr>)))"

definition updateCategory ::
  "db \<Rightarrow> ident option \<Rightarrow> ident \<Rightarrow> category_payload \<Rightarrow> http_error + (category \<times> db)" where
  "updateCategory d auth categoryId p =
     (case requireAuth auth of
        Inl e \<Rightarrow> Inl e
      | Inr uid \<Rightarrow>
          if categoryId = [] then Inl (HttpError 400 CategoryIdRequired)
          else if \<not> nonempty (cp_name p) \<and> \<not> nonempty (cp_type p) \<and>
                  \<not> nonempty (cp_color p) \<and> \<not> nonempty (cp_icon p)
          then Inl (HttpError 400 NoUpdateField)
          else
            (case single (filter (\<lambda>c. c_id c = categoryId \<and> c_user_id c = uid)
                            (rls_categories uid (categories_tbl d))) of
               None \<Rightarrow> Inl (HttpError 404 CategoryNotFound)
             | Some existingCategory \<Rightarrow>
                 (let updated = existingCategory
                        \<lparr>c_name := (case cp_name p of None \<Rightarrow> c_name existingCategory | Some s \<Rightarrow> s),
                         c_type := (case cp_type p of None \<Rightarrow> c_type existingCategory | Some s \<Rightarrow> s),
                         color := (case cp_color p of None \<Rightarrow> color existingCategory | Some s \<Rightarrow> s),
                         icon := (case cp_icon p of None \<Rightarrow> icon existingCategory | Some s \<Rightarrow> s)\<rparr>
                  in if valid_type (c_type updated)
                     then Inr (updated,
                            d\<lparr>categories_tbl :=
                                map (\<lambda>c. if c_id c = categoryId \<and> c_user_id c = uid then updated else c)
                                  (categories_tbl d)\<rparr>)
                     else Inl (HttpError 400 StoreMessage))))"

section \<open>Profile writes: the users function and the admin action\<close>

text \<open>JavaScript truthiness of a JSON value.\<close>

definition truthy :: "jvalue \<Rightarrow> bool" where
  "truthy v = (case v of JNull \<Rightarrow> False | JBool b \<Rightarrow> b | JNum n \<Rightarrow> n \<noteq> 0
               | JStr s \<Rightarrow> s \<noteq> [] | JOther \<Rightarrow> True)"

text \<open>The columns of the profile table.\<close>

definition user_columns :: "string list" where
  "user_columns = [''id'', ''email'', ''full_name'', ''username'', ''avatar_url'', ''bio'', ''phone'',
     ''date_of_birth'', ''location'', ''website'', ''is_verified'', ''is_active'', ''is_staff'',
     ''last_login'', ''preferences'', ''created_at'', ''updated_at'']"

text \<open>
  What the store does with one row and the columns of an \<open>update\<close> or \<open>upsert\<close>: a name
  that is not a column is an error; \<open>id\<close>, \<open>email\<close> and \<open>full_name\<close> take a string (a
  non-empty one for the id), \<open>is_staff\<close> a boolean; the remaining columns take the value
  as it is (their types are not checked here). A column that is not named keeps its
  value.
\<close>

definition str_col :: "jvalue option \<Rightarrow> string \<Rightarrow> string option" where
  "str_col v old = (case v of None \<Rightarrow> Some old | Some (JStr s) \<Rightarrow> Some s | Some _ \<Rightarrow> None)"

definition bool_col :: "jvalue option \<Rightarrow> bool \<Rightarrow> bool option" where
  "bool_col v old = (case v of None \<Rightarrow> Some old | Some (JBool b) \<Rightarrow> Some b | Some _ \<Rightarrow> None)"

definition write_profile :: "jobject \<Rightarrow> profile \<Rightarrow> profile option" where
  "write_profile cols p =
     (if \<not> dom cols \<subseteq> set user_columns then None
      else
        (case str_col (cols ''id'') (u_id p) of
           None \<Rightarrow> None
         | Some i \<Rightarrow>
             if i = [] then None
             else
               (case str_col (cols ''email'') (email p) of
                  None \<Rightarrow> None
                | Some e \<Rightarrow>
                    (case str_col (cols ''full_name'') (full_name p) of
                       None \<Rightarrow> None
                     | Some f \<Rightarrow>
                         (case bool_col (cols ''is_staff'') (is_staff p) of
                            None \<Rightarrow> None
                          | Some s \<Rightarrow>
                              Some \<lparr>u_id = i, email = e, full_name = f, is_staff = s,
                                    other = other p ++
                                      (cols |` (- {''id'', ''email'', ''full_name'', ''is_staff''}))\<rparr>)))))"

text \<open>
  \<open>from('users').update(cols).eq(...).select().single()\<close> on the rows that \<open>sel\<close> selects:
  it fails, and changes nothing, unless exactly one row is selected, the write is
  accepted, and ids and emails stay unique. (An update without columns is taken as a
  write that changes nothing.)
\<close>

definition update_users ::
  "profile list \<Rightarrow> (profile \<Rightarrow> bool) \<Rightarrow> jobject \<Rightarrow> (profile \<times> profile list) option" where
  "update_users tbl sel cols =
     (case single (filter sel tbl) of
        None \<Rightarrow> None
      | Some p \<Rightarrow>
          (case write_profile cols p of
             None \<Rightarrow> None
           | Some p' \<Rightarrow>
               (let tbl' = map (\<lambda>r. if sel r then p' else r) tbl
                in if distinct (map u_id tbl') \<and> distinct (map email tbl')
                   then Some (p', tbl') else None)))"

text \<open>
  \<open>PUT /users\<close>. The body is \<open>None\<close> when \<open>req.json()\<close> throws. The update runs with the
  caller's client, so the update policy of the profile table (own row only) applies.
\<close>

definition body_id :: "jobject \<Rightarrow> jvalue option" where
  "body_id updateBody =
     (case updateBody ''id'' of None \<Rightarrow> None | Some v \<Rightarrow> if truthy v then Some v else None)"

text \<open>
  \<open>updateBody.id || user.id\<close> as the operand of \<open>eq('id', ...)\<close>: an id in the body that is
  not a string cannot be compared with the column, and the store reports an error.
\<close>

definition put_target :: "ident \<Rightarrow> jvalue option \<Rightarrow> ident option" where
  "put_target uid bid = (case bid of None \<Rightarrow> Some uid | Some (JStr s) \<Rightarrow> Some s | Some _ \<Rightarrow> None)"

text \<open>The rows the update reaches: \<open>eq('id', target)\<close> under the policy \<open>auth.uid() = id\<close>.\<close>

definition put_selects :: "ident \<Rightarrow> ident \<Rightarrow> profile \<Rightarrow> bool" where
  "put_selects target uid p = (u_id p = target \<and> u_id p = uid)"

definition usersPut :: "db \<Rightarrow> ident option \<Rightarrow> jobject option \<Rightarrow> http_error + (profile \<times> db)" where
  "usersPut d auth body =
     (case requireAuth auth of
        Inl e \<Rightarrow> Inl e
      | Inr uid \<Rightarrow>
          (case body of
             None \<Rightarrow> Inl (HttpError 500 BodyNotJson)
           | Some updateBody \<Rightarrow>
               (case staff_lookup d uid of
                  Inl e \<Rightarrow> Inl e
                | Inr canEditOthers \<Rightarrow>
                    if \<not> canEditOthers \<and> body_id updateBody \<noteq> None \<and>
                       body_id updateBody \<noteq> Some (JStr uid)
                    then Inl (HttpError 403 InsufficientPermissions)
                    else
                      (let safeUpdateData = updateBody(''is_staff'' := None)
                       in (case put_target uid (body_id updateBody) of
                             None \<Rightarrow> Inl (HttpError 400 StoreMessage)
                           | Some target \<Rightarrow>
                               (case update_users (users_tbl d) (put_selects target uid)
                                       safeUpdateData of
                                  None \<Rightarrow> Inl (HttpError 400 StoreMessage)
                                | Some (row, tbl') \<Rightarrow> Inr (row, d\<lparr>users_tbl := tbl'\<rparr>)))))))"

text \<open>
  \<open>POST /users\<close>. \<open>created\<close> is the answer of the identity provider to \<open>createUser\<close>: the
  id and email of the new user, or \<open>None\<close> for an error. The profile is written with
  \<open>upsert(profileData, {onConflict: 'id'})\<close> by the admin client: a row with that id is
  updated in the columns of \<open>profileData\<close>, otherwise a row is inserted, with the defaults
  of the table in its other columns.
\<close>

definition profileData :: "ident \<Rightarrow> string \<Rightarrow> jobject \<Rightarrow> jobject" where
  "profileData new_id new_email body =
     (\<lambda>k. if k = ''id'' then Some (JStr new_id)
          else if k = ''email'' then Some (JStr new_email)
          else if k = ''full_name'' \<or> k = ''username'' then body k
          else if k \<in> {''avatar_url'', ''bio'', ''phone'', ''date_of_birth'', ''location'', ''website''}
               then (case body k of None \<Rightarrow> Some JNull | Some v \<Rightarrow> Some v)
          else if k = ''preferences''
               then (case body k of None \<Rightarrow> Some JOther
                     | Some v \<Rightarrow> if truthy v then Some v else Some JOther)
          else None)"

definition upsert_profile ::
  "profile list \<Rightarrow> ident \<Rightarrow> jobject \<Rightarrow> (profile \<times> profile list) option" where
  "upsert_profile tbl new_id cols =
     (if new_id \<in> set (map u_id tbl) then update_users tbl (\<lambda>p. u_id p = new_id) cols
      else
        (case (cols ''email'', cols ''full_name'') of
           (Some (JStr e), Some (JStr f)) \<Rightarrow>
             (case write_profile cols
                     \<lparr>u_id = new_id, email = e, full_name = f, is_staff = False,
                      other = [''is_verified'' \<mapsto> JBool False, ''is_active'' \<mapsto> JBool True]\<rparr> of
                None \<Rightarrow> None
              | Some row \<Rightarrow>
                  if distinct (map u_id (tbl @ [row])) \<and> distinct (map email (tbl @ [row]))
                  then Some (row, tbl @ [row]) else None)
         | _ \<Rightarrow> None))"

definition usersPost ::
  "db \<Rightarrow> (ident \<times> string) option \<Rightarrow> jobject option \<Rightarrow> http_error + (profile \<times> db)" where
  "usersPost d created body =
     (case body of
        None \<Rightarrow> Inl (HttpError 500 BodyNotJson)
      | Some b \<Rightarrow>
          (case created of
             None \<Rightarrow> Inl (HttpError 400 AuthCreateFailed)
           | Some (new_id, new_email) \<Rightarrow>
               (case upsert_profile (users_tbl d) new_id (profileData new_id new_email b) of
                  None \<Rightarrow> Inl (HttpError 400 StoreMessage)
                | Some (row, tbl') \<Rightarrow> Inr (row, d\<lparr>users_tbl := tbl'\<rparr>))))"

text \<open>
  The admin action \<open>change_staff\<close>. The caller's flag is read with the caller's client,
  the flag of the target is written with the admin client. The result is the
  \<open>id, is_staff\<close> of the updated row.
\<close>

definition change_staff ::
  "db \<Rightarrow> ident option \<Rightarrow> ident option \<Rightarrow> bool option \<Rightarrow> http_error + ((ident \<times> bool) \<times> db)" where
  "change_staff d auth target_user_id is_staff_new =
     (case requireAuth auth of
        Inl e \<Rightarrow> Inl e
      | Inr uid \<Rightarrow>
          (case requireFields [(''target_user_id'', nonempty target_user_id),
                               (''is_staff'', is_staff_new \<noteq> None)] of
             Some e \<Rightarrow> Inl e
           | None \<Rightarrow>
               (case staff_lookup d uid of
                  Inl e \<Rightarrow> Inl e
                | Inr caller_is_staff \<Rightarrow>
                    if \<not> caller_is_staff then Inl (HttpError 403 ForbiddenStaffOnly)
                    else
                      (case update_users (users_tbl d)
                              (\<lambda>p. Some (u_id p) = target_user_id)
                              [''is_staff'' \<mapsto> JBool (case is_staff_new of None \<Rightarrow> False | Some b \<Rightarrow> b)] of
                         None \<Rightarrow> Inl (HttpError 400 StoreMessage)
                       | Some (updated, tbl') \<Rightarrow>
                           Inr ((u_id updated, is_staff updated), d\<lparr>users_tbl := tbl'\<rparr>)))))"

section \<open>Every request that writes to the store\<close>

datatype request =
    CreateCategory "ident option" ident category_payload
  | UpdateCategory "ident option" ident category_payload
  | DeleteCategory "ident option" ident
  | CreateTransaction "ident option" timestamp caldate ident tx_payload
  | UpdateTransaction "ident option" timestamp ident tx_payload
  | DeleteTransaction "ident option" ident
  | MarkAsPaid "ident option" timestamp ident
  | MarkAsUnpaid "ident option" ident
  | TogglePaymentStatus "ident option" timestamp ident
  | UsersPost "(ident \<times> string) option" "jobject option"
  | UsersPut "ident option" "jobject option"
  | ChangeStaff "ident option" "ident option" "bool option"

definition perform :: "db \<Rightarrow> request \<Rightarrow> db" where
  "perform d r =
     (case r of
        CreateCategory auth new_id p \<Rightarrow> state_after d (createCategory d auth new_id p)
      | UpdateCategory auth cid p \<Rightarrow> state_after d (updateCategory d auth cid p)
      | DeleteCategory auth cid \<Rightarrow> state_after d (deleteCategory d auth cid)
      | CreateTransaction auth now today new_id p \<Rightarrow>
          state_after d (createTransaction d auth now today new_id p)
      | UpdateTransaction auth now tid p \<Rightarrow> state_after d (updateTransaction d auth now tid p)
      | DeleteTransaction auth tid \<Rightarrow>
          (case deleteTransaction d auth tid of Inl e \<Rightarrow> d | Inr d' \<Rightarrow> d')
      | MarkAsPaid auth now tid \<Rightarrow> state_after d (markAsPaid d auth now tid)
      | MarkAsUnpaid auth tid \<Rightarrow> state_after d (markAsUnpaid d auth tid)
      | TogglePaymentStatus auth now tid \<Rightarrow> state_after d (togglePaymentStatus d auth now tid)
      | UsersPost created body \<Rightarrow> state_after d (usersPost d created body)
      | UsersPut auth body \<Rightarrow> state_after d (usersPut d auth body)
      | ChangeStaff auth target is_staff_new \<Rightarrow> state_after d (change_staff d auth target is_staff_new))"




section \<open>The invariant of the two cashflow tables\<close>

text \<open>
  Category ids are unique and not empty (they are generated keys), and every category
  reference of a transaction names a category of the transaction's owner. The requests
  whose generated key matters for this are the creations of a category.
\<close>

definition tx_ref_ok :: "category list \<Rightarrow> transaction \<Rightarrow> bool" where
  "tx_ref_ok cats t =
     (case category_id t of
        None \<Rightarrow> True
      | Some cid \<Rightarrow> list_ex (\<lambda>c. c_id c = cid \<and> c_user_id c = user_id t) cats)"

definition store_inv :: "db \<Rightarrow> bool" where
  "store_inv d =
     (distinct (map c_id (categories_tbl d)) \<and> [] \<notin> set (map c_id (categories_tbl d)) \<and>
      list_all (tx_ref_ok (categories_tbl d)) (transactions_tbl d))"

definition generated_id_ok :: "request \<Rightarrow> bool" where
  "generated_id_ok r = (case r of CreateCategory auth new_id p \<Rightarrow> new_id \<noteq> [] | _ \<Rightarrow> True)"

definition empty_db :: db where
  "empty_db = \<lparr>users_tbl = [], categories_tbl = [], transactions_tbl = []\<rparr>"


section \<open>Example states\<close>

text \<open>The two rows of the example of the specification, owned by user \<open>''u1''\<close>, and a
  row of another user beside them.\<close>

definition ex_income :: transaction where
  "ex_income = \<lparr>t_id = ''t1'', user_id = ''u1'', category_id = None, t_type = ''income'',
     amount = 100, description = ''salary'', date = 10, tags = [], t_notes = None,
     is_paid = True, paid_at = Some 7, created_at = 5\<rparr>"

definition ex_expense :: transaction where
  "ex_expense = \<lparr>t_id = ''t2'', user_id = ''u1'', category_id = None, t_type = ''expense'',
     amount = 40, description = ''food'', date = 12, tags = [], t_notes = None,
     is_paid = False, paid_at = None, created_at = 6\<rparr>"

definition ex_foreign :: transaction where
  "ex_foreign = \<lparr>t_id = ''t3'', user_id = ''u2'', category_id = None, t_type = ''income'',
     amount = 999, description = ''other'', date = 11, tags = [], t_notes = None,
     is_paid = False, paid_at = None, created_at = 4\<rparr>"



text \<open>
  A state with three profiles (\<open>''u3''\<close> is staff), a category of \<open>''u1''\<close> and one of
  \<open>''u2''\<close>, and transactions of both users.
\<close>

definition ex_alice :: profile where
  "ex_alice = \<lparr>u_id = ''u1'', email = ''alice@example.org'', full_name = ''Alice'', is_staff = False,
     other = Map.empty\<rparr>"

definition ex_bob :: profile where
  "ex_bob = \<lparr>u_id = ''u2'', email = ''bob@example.org'', full_name = ''Bob'', is_staff = False,
     other = Map.empty\<rparr>"

definition ex_carol :: profile where
  "ex_carol = \<lparr>u_id = ''u3'', email = ''carol@example.org'', full_name = ''Carol'', is_staff = True,
     other = Map.empty\<rparr>"

definition ex_food :: category where
  "ex_food = \<lparr>c_id = ''c1'', c_name = ''Food'', c_type = ''expense'', color = ''#EF4444'',
     icon = ''f'', c_user_id = ''u1''\<rparr>"

definition ex_salary :: category where
  "ex_salary = \<lparr>c_id = ''c2'', c_name = ''Salary'', c_type = ''income'', color = ''#10B981'',
     icon = ''s'', c_user_id = ''u2''\<rparr>"

definition ex_groceries :: transaction where
  "ex_groceries = \<lparr>t_id = ''t4'', user_id = ''u1'', category_id = Some ''c1'', t_type = ''expense'',
     amount = 25, description = ''groceries'', date = 13, tags = [], t_notes = None,
     is_paid = False, paid_at = None, created_at = 8\<rparr>"

definition ex_db :: db where
  "ex_db = \<lparr>users_tbl = [ex_alice, ex_bob, ex_carol], categories_tbl = [ex_food, ex_salary],
     transactions_tbl = [ex_income, ex_foreign, ex_expense, ex_groceries]\<rparr>"

definition ex_query :: list_query where
  "ex_query = \<lparr>start_date = None, end_date = None, q_type = None, q_category_id = None,
     q_is_paid = None, q_limit = None, q_offset = None\<rparr>"

text \<open>A body without properties, and the body \<open>{"is_paid": true}\<close>.\<close>

definition ex_empty_payload :: tx_payload where
  "ex_empty_payload = \<lparr>p_type = None, p_amount = None, p_description = None, p_date = None,
     p_category_id = None, p_tags = None, p_notes = None, p_is_paid = None\<rparr>"

definition ex_mark_paid :: tx_payload where
  "ex_mark_paid = ex_empty_payload\<lparr>p_is_paid := Some True\<rparr>"

text \<open>
  Two bodies for \<open>POST /transactions\<close>: one that names the category of another user and
  lacks the required fields, one that is complete and has the empty string as category.
\<close>

definition ex_foreign_ref :: tx_payload where
  "ex_foreign_ref = ex_empty_payload\<lparr>p_category_id := Some ''c2''\<rparr>"

definition ex_empty_ref :: tx_payload where
  "ex_empty_ref = ex_empty_payload\<lparr>p_type := Some ''income'', p_amount := Some 5,
     p_description := Some ''gift'', p_category_id := Some []\<rparr>"

text \<open>The query \<open>?type=income&limit=1\<close>.\<close>

definition ex_income_page :: list_query where
  "ex_income_page = ex_query\<lparr>q_type := Some ''income'', q_limit := Some 1\<rparr>"



section \<open>Basic facts about the store operations\<close>

lemma single_Some_iff: "single xs = Some x \<longleftrightarrow> xs = [x]"
  by (cases xs rule: single.cases) auto

lemma single_filter_None: "\<forall>x \<in> set xs. \<not> P x \<Longrightarrow> single (filter P xs) = None"
  by (simp add: filter_False)

lemma set_date_filter: "set (date_filter sd ed rows) \<subseteq> set rows"
  by (auto simp: date_filter_def Let_def split: option.splits)

lemma set_order_transactions: "set (order_transactions rows) = set rows"
  by (simp add: order_transactions_def)

lemma set_order_categories: "set (order_categories cs) = set cs"
  by (simp add: order_categories_def)

lemma set_range_window: "set (range_window a n rows) \<subseteq> set rows"
  unfolding range_window_def by (meson set_take_subset set_drop_subset subset_trans)

lemma set_apply_filters: "set (apply_filters q rows) \<subseteq> set rows"
  using set_date_filter [of "start_date q" "end_date q" rows]
  by (auto simp: apply_filters_def Let_def split: option.splits)

lemma embed_category_Some:
  "embed_category cats t = Some c \<Longrightarrow> c \<in> set cats \<and> category_id t = Some (c_id c)"
  by (auto simp: embed_category_def find_Some_iff split: option.splits)

lemma staff_lookup_own_info:
  assumes "staff_lookup d uid = Inr b"
  shows "\<exists>p \<in> set (users_tbl d). u_id p = uid \<and> is_staff p = b \<and> own_info d uid = Some (select_info p)"
proof -
  from assms obtain p where
    p: "single (filter (\<lambda>p. u_id p = uid) (rls_users uid (users_tbl d))) = Some p" "is_staff p = b"
    by (auto simp: staff_lookup_def split: option.splits)
  then have "filter (\<lambda>p. u_id p = uid) (rls_users uid (users_tbl d)) = [p]"
    by (simp add: single_Some_iff)
  then have "p \<in> set (filter (\<lambda>p. u_id p = uid) (rls_users uid (users_tbl d)))"
    by simp
  then have "p \<in> set (users_tbl d)" "u_id p = uid"
    by (auto simp: rls_users_def)
  with p show ?thesis
    by (auto simp: own_info_def)
qed

lemma filter_map_commute:
  "(\<And>r. P (g r) = P r) \<Longrightarrow> filter P (map g xs) = map g (filter P xs)"
  by (induction xs) auto

lemma own_transaction_unique:
  assumes "own_transaction d uid tid = Some t"
  shows "t \<in> set (transactions_tbl d)" "t_id t = tid" "user_id t = uid"
    "\<And>r. r \<in> set (transactions_tbl d) \<Longrightarrow> t_id r = tid \<Longrightarrow> user_id r = uid \<Longrightarrow> r = t"
proof -
  let ?P = "\<lambda>t. t_id t = tid \<and> user_id t = uid"
  from assms have eq: "filter ?P (rls_transactions uid (transactions_tbl d)) = [t]"
    by (simp add: own_transaction_def single_Some_iff)
  then have "t \<in> set (filter ?P (rls_transactions uid (transactions_tbl d)))"
    by simp
  then show "t \<in> set (transactions_tbl d)" "t_id t = tid" "user_id t = uid"
    by (auto simp: rls_transactions_def)
  fix r assume "r \<in> set (transactions_tbl d)" "t_id r = tid" "user_id r = uid"
  then have "r \<in> set (filter ?P (rls_transactions uid (transactions_tbl d)))"
    by (simp add: rls_transactions_def)
  with eq show "r = t" by simp
qed

lemma store_check_tx_tbl:
  "store_check_tx (d\<lparr>transactions_tbl := ts\<rparr>) t = store_check_tx d t"
  by (simp add: store_check_tx_def split: option.splits)

lemma update_transaction_ok:
  assumes own: "own_transaction d uid tid = Some t"
    and ok: "store_check_tx d (f t)"
    and keep: "\<And>r. t_id (f r) = t_id r \<and> user_id (f r) = user_id r"
  shows "\<exists>d'. update_transaction d uid tid f = Inr (f t, d') \<and>
           own_transaction d' uid tid = Some (f t) \<and>
           categories_tbl d' = categories_tbl d \<and> users_tbl d' = users_tbl d \<and>
           transactions_tbl d' =
             map (\<lambda>r. if t_id r = tid \<and> user_id r = uid then f r else r) (transactions_tbl d)"
proof -
  let ?P = "\<lambda>t. t_id t = tid \<and> user_id t = uid"
  let ?g = "\<lambda>r. if t_id r = tid \<and> user_id r = uid then f r else r"
  let ?d' = "d\<lparr>transactions_tbl := map ?g (transactions_tbl d)\<rparr>"
  have up: "update_transaction d uid tid f = Inr (f t, ?d')"
    by (simp add: update_transaction_def own ok)
  from own have eq: "filter ?P (filter (\<lambda>t. user_id t = uid) (transactions_tbl d)) = [t]"
    by (simp add: own_transaction_def single_Some_iff rls_transactions_def)
  have g1: "(user_id (?g r) = uid) = (user_id r = uid)" for r
    by (simp add: keep)
  have g2: "?P (?g r) = ?P r" for r
    by (simp add: keep)
  have "filter ?P (filter (\<lambda>t. user_id t = uid) (map ?g (transactions_tbl d)))
        = map ?g (filter ?P (filter (\<lambda>t. user_id t = uid) (transactions_tbl d)))"
    by (simp only: filter_map_commute [of "\<lambda>t. user_id t = uid" ?g, OF g1]
        filter_map_commute [of ?P ?g, OF g2])
  also have "\<dots> = [?g t]"
    by (simp only: eq list.map)
  also have "?g t = f t"
    using own_transaction_unique(2,3) [OF own] by simp
  finally have "own_transaction ?d' uid tid = Some (f t)"
    by (simp add: own_transaction_def rls_transactions_def)
  with up show ?thesis by simp
qed

lemma ex_staff: "staff_lookup ex_db ''u3'' = Inr True"
  by (simp add: staff_lookup_def rls_users_def ex_db_def ex_alice_def ex_bob_def ex_carol_def)



section \<open>Properties of the summary\<close>











section \<open>Listing as a non-staff caller\<close>

text \<open>
  Claim C1. For an authenticated caller whose profile is not staff, \<open>GET /transactions\<close>
  (with any query) and \<open>GET /categories\<close> return, and every row they return is a row of
  the table owned by the caller; the embedded category and the attached profile summary
  are the caller's too.
\<close>

theorem nonstaff_lists_own_rows:
  assumes "staff_lookup d uid = Inr False"
  shows "(\<exists>rows. transactions d (Some uid) q = Inr rows \<and>
            (\<forall>v \<in> set rows. tx v \<in> set (transactions_tbl d) \<and> user_id (tx v) = uid \<and>
               (case tx_category v of None \<Rightarrow> True | Some c \<Rightarrow> c_user_id c = uid) \<and>
               map_option i_id (tx_user v) = Some uid)) \<and>
         (\<exists>cs. categories d (Some uid) = Inr cs \<and>
            (\<forall>v \<in> set cs. cat v \<in> set (categories_tbl d) \<and> c_user_id (cat v) = uid \<and>
               map_option i_id (cat_user v) = Some uid))"
proof -
  from staff_lookup_own_info [OF assms] obtain p where
    p: "u_id p = uid" "own_info d uid = Some (select_info p)" by blast
  define rows where "rows = range_window (offset_of q) (limit_of q)
     (order_transactions (apply_filters q (filter (\<lambda>t. user_id t = uid)
        (rls_transactions uid (transactions_tbl d)))))"
  have rows_sub: "set rows \<subseteq> {t \<in> set (transactions_tbl d). user_id t = uid}"
  proof -
    have "set rows \<subseteq> set (apply_filters q (filter (\<lambda>t. user_id t = uid)
        (rls_transactions uid (transactions_tbl d))))"
      unfolding rows_def
      using set_range_window [of "offset_of q" "limit_of q" "order_transactions (apply_filters q
        (filter (\<lambda>t. user_id t = uid) (rls_transactions uid (transactions_tbl d))))"]
      by (simp add: set_order_transactions)
    also have "\<dots> \<subseteq> set (filter (\<lambda>t. user_id t = uid) (rls_transactions uid (transactions_tbl d)))"
      by (rule set_apply_filters)
    also have "\<dots> \<subseteq> {t \<in> set (transactions_tbl d). user_id t = uid}"
      by (auto simp: rls_transactions_def)
    finally show ?thesis .
  qed
  have tx_eq: "transactions d (Some uid) q =
     Inr (map (\<lambda>t. \<lparr>tx = t, tx_category = embed_category (rls_categories uid (categories_tbl d)) t,
                     tx_user = Some (select_info p)\<rparr>) rows)"
    by (simp add: transactions_def requireAuth_def assms p Let_def rows_def)
  have emb: "case embed_category (rls_categories uid (categories_tbl d)) t of
      None \<Rightarrow> True | Some c \<Rightarrow> c_user_id c = uid" for t
    by (auto split: option.splits dest!: embed_category_Some simp: rls_categories_def)
  have cat_eq: "categories d (Some uid) =
     Inr (map (\<lambda>c. \<lparr>cat = c, cat_user = Some (select_info p)\<rparr>)
        (order_categories (filter (\<lambda>c. c_user_id c = uid) (rls_categories uid (categories_tbl d)))))"
    by (simp add: categories_def requireAuth_def assms p Let_def)
  show ?thesis
    unfolding tx_eq cat_eq
    using rows_sub emb p(1)
    by (auto simp: set_order_categories rls_categories_def select_info_def)
qed

theorem nonstaff_lists_own_rows_witness:
  "staff_lookup ex_db ''u1'' = Inr False \<and>
   ((\<exists>rows. transactions ex_db (Some ''u1'') ex_query = Inr rows \<and>
            (\<forall>v \<in> set rows. tx v \<in> set (transactions_tbl ex_db) \<and> user_id (tx v) = ''u1'' \<and>
               (case tx_category v of None \<Rightarrow> True | Some c \<Rightarrow> c_user_id c = ''u1'') \<and>
               map_option i_id (tx_user v) = Some ''u1'')) \<and>
         (\<exists>cs. categories ex_db (Some ''u1'') = Inr cs \<and>
            (\<forall>v \<in> set cs. cat v \<in> set (categories_tbl ex_db) \<and> c_user_id (cat v) = ''u1'' \<and>
               map_option i_id (cat_user v) = Some ''u1'')))"
proof -
  have h: "staff_lookup ex_db ''u1'' = Inr False"
    by (simp add: staff_lookup_def rls_users_def ex_db_def ex_alice_def ex_bob_def ex_carol_def)
  show ?thesis
    by (rule conjI [OF h nonstaff_lists_own_rows [OF h]])
qed

section \<open>The paid flag and its timestamp\<close>

lemma shaped_refl: "shaped now restamp old old"
  unfolding shaped_def good_rewrite_def
  by (rule exI [of _ "\<lambda>r. r"], rule exI [of _ "[]"]) (simp add: paid_step_def)

lemma shaped_map: "good_rewrite now restamp old g \<Longrightarrow> shaped now restamp old (map g old)"
  unfolding shaped_def by (rule exI [of _ g], rule exI [of _ "[]"]) simp

lemma shaped_append: "paid_inv row \<Longrightarrow> shaped now restamp old (old @ [row])"
  unfolding shaped_def good_rewrite_def
  by (rule exI [of _ "\<lambda>r. r"], rule exI [of _ "[row]"]) (simp add: paid_step_def)

lemma update_transaction_tbl:
  "update_transaction d uid tid f = Inr (r, d') \<Longrightarrow>
     transactions_tbl d' = map (\<lambda>r. if t_id r = tid \<and> user_id r = uid then f r else r) (transactions_tbl d)
     \<and> (\<exists>t. own_transaction d uid tid = Some t)"
  by (auto simp: update_transaction_def split: option.splits if_splits)

lemma paid_inv_new_transaction: "paid_inv (new_transaction uid now today new_id p)"
  by (cases "p_is_paid p") (auto simp: paid_inv_def new_transaction_def)

lemma shaped_create:
  "shaped now rs (transactions_tbl d)
     (transactions_tbl (state_after d (createTransaction d auth now today new_id p)))"
proof (cases "createTransaction d auth now today new_id p")
  case (Inl e)
  then show ?thesis by (simp add: state_after_def shaped_refl)
next
  case (Inr vd)
  obtain v d' where vd: "vd = (v, d')" by (cases vd)
  from Inr obtain uid where "insert_transaction d uid (new_transaction uid now today new_id p) = Inr (tx v, d')"
    unfolding vd createTransaction_def
    by (auto simp: with_category_def split: sum.splits option.splits if_splits)
  then have "transactions_tbl d' = transactions_tbl d @ [new_transaction uid now today new_id p]"
    by (auto simp: insert_transaction_def split: if_splits)
  then show ?thesis
    using Inr vd by (simp add: state_after_def shaped_append paid_inv_new_transaction)
qed

lemma good_updateData:
  "good_rewrite now (p_is_paid p = Some True) rows
     (\<lambda>r. if t_id r = tid \<and> user_id r = uid then updateData p now r else r)"
proof (cases "p_is_paid p")
  case None
  then show ?thesis
    by (auto simp: good_rewrite_def paid_inv_def paid_step_def updateData_def)
next
  case (Some b)
  then show ?thesis
    by (cases b) (auto simp: good_rewrite_def paid_inv_def paid_step_def updateData_def)
qed

lemma shaped_update:
  "shaped now (p_is_paid p = Some True) (transactions_tbl d)
     (transactions_tbl (state_after d (updateTransaction d auth now tid p)))"
proof (cases "updateTransaction d auth now tid p")
  case (Inl e)
  then show ?thesis by (simp add: state_after_def shaped_refl)
next
  case (Inr vd)
  obtain v d' where vd: "vd = (v, d')" by (cases vd)
  from Inr obtain uid where "update_transaction d uid tid (updateData p now) = Inr (tx v, d')"
    unfolding vd updateTransaction_def
    by (auto simp: with_category_def split: sum.splits option.splits if_splits)
  from update_transaction_tbl [OF this]
  have "transactions_tbl d' =
     map (\<lambda>r. if t_id r = tid \<and> user_id r = uid then updateData p now r else r) (transactions_tbl d)"
    by simp
  then show ?thesis
    using Inr vd by (simp add: state_after_def shaped_map good_updateData)
qed

lemma good_set_paid:
  assumes "own_transaction d uid tid = Some t" and "is_paid t \<noteq> b"
    and "pa = (if b then Some now else None)"
  shows "good_rewrite now False (transactions_tbl d)
     (\<lambda>r. if t_id r = tid \<and> user_id r = uid then r\<lparr>is_paid := b, paid_at := pa\<rparr> else r)"
  unfolding good_rewrite_def
proof (intro ballI impI)
  fix r assume r: "r \<in> set (transactions_tbl d)" "paid_inv r"
  let ?g = "\<lambda>r. if t_id r = tid \<and> user_id r = uid then r\<lparr>is_paid := b, paid_at := pa\<rparr> else r"
  show "paid_inv (?g r) \<and> t_id (?g r) = t_id r \<and> paid_step now False r (?g r)"
  proof (cases "t_id r = tid \<and> user_id r = uid")
    case False
    then have "?g r = r" by auto
    then show ?thesis using r(2) by (simp add: paid_step_def)
  next
    case True
    then have "r = t"
      using own_transaction_unique(4) [OF assms(1) r(1)] by simp
    with True assms(2,3) r(2) show ?thesis
      by (auto simp: paid_inv_def paid_step_def)
  qed
qed

lemma shaped_markAsPaid:
  "shaped now False (transactions_tbl d) (transactions_tbl (state_after d (markAsPaid d auth now tid)))"
proof (cases "markAsPaid d auth now tid")
  case (Inl e)
  then show ?thesis by (simp add: state_after_def shaped_refl)
next
  case (Inr vd)
  obtain v d' where vd: "vd = (v, d')" by (cases vd)
  from Inr obtain uid t where t: "own_transaction d uid tid = Some t" "\<not> is_paid t"
    and up: "update_transaction d uid tid (\<lambda>r. r\<lparr>is_paid := True, paid_at := Some now\<rparr>) = Inr (tx v, d')"
    unfolding vd markAsPaid_def
    by (auto simp: with_category_def split: sum.splits option.splits if_splits)
  from update_transaction_tbl [OF up]
  have tbl: "transactions_tbl d' =
     map (\<lambda>r. if t_id r = tid \<and> user_id r = uid then r\<lparr>is_paid := True, paid_at := Some now\<rparr> else r)
       (transactions_tbl d)"
    by simp
  from t have "is_paid t \<noteq> True" by simp
  from good_set_paid [OF t(1) this, of "Some now" now]
  have "good_rewrite now False (transactions_tbl d)
     (\<lambda>r. if t_id r = tid \<and> user_id r = uid then r\<lparr>is_paid := True, paid_at := Some now\<rparr> else r)"
    by simp
  then show ?thesis
    using Inr vd tbl by (simp add: state_after_def shaped_map)
qed

lemma shaped_markAsUnpaid:
  "shaped now False (transactions_tbl d) (transactions_tbl (state_after d (markAsUnpaid d auth tid)))"
proof (cases "markAsUnpaid d auth tid")
  case (Inl e)
  then show ?thesis by (simp add: state_after_def shaped_refl)
next
  case (Inr vd)
  obtain v d' where vd: "vd = (v, d')" by (cases vd)
  from Inr obtain uid t where t: "own_transaction d uid tid = Some t" "is_paid t"
    and up: "update_transaction d uid tid (\<lambda>r. r\<lparr>is_paid := False, paid_at := None\<rparr>) = Inr (tx v, d')"
    unfolding vd markAsUnpaid_def
    by (auto simp: with_category_def split: sum.splits option.splits if_splits)
  from update_transaction_tbl [OF up]
  have tbl: "transactions_tbl d' =
     map (\<lambda>r. if t_id r = tid \<and> user_id r = uid then r\<lparr>is_paid := False, paid_at := None\<rparr> else r)
       (transactions_tbl d)"
    by simp
  from t have "is_paid t \<noteq> False" by simp
  from good_set_paid [OF t(1) this, of None now]
  have "good_rewrite now False (transactions_tbl d)
     (\<lambda>r. if t_id r = tid \<and> user_id r = uid then r\<lparr>is_paid := False, paid_at := None\<rparr> else r)"
    by simp
  then show ?thesis
    using Inr vd tbl by (simp add: state_after_def shaped_map)
qed

lemma shaped_toggle:
  "shaped now False (transactions_tbl d)
     (transactions_tbl (state_after d (togglePaymentStatus d auth now tid)))"
proof (cases "togglePaymentStatus d auth now tid")
  case (Inl e)
  then show ?thesis by (simp add: state_after_def shaped_refl)
next
  case (Inr vd)
  obtain v d' where vd: "vd = (v, d')" by (cases vd)
  from Inr obtain uid t where t: "own_transaction d uid tid = Some t"
    and up: "update_transaction d uid tid
       (\<lambda>r. r\<lparr>is_paid := \<not> is_paid t, paid_at := (if \<not> is_paid t then Some now else None)\<rparr>) = Inr (tx v, d')"
    unfolding vd togglePaymentStatus_def
    by (auto simp: with_category_def Let_def split: sum.splits option.splits if_splits)
  from update_transaction_tbl [OF up]
  have tbl: "transactions_tbl d' =
     map (\<lambda>r. if t_id r = tid \<and> user_id r = uid
               then r\<lparr>is_paid := \<not> is_paid t, paid_at := (if \<not> is_paid t then Some now else None)\<rparr> else r)
       (transactions_tbl d)"
    by simp
  have "is_paid t \<noteq> (\<not> is_paid t)" by simp
  from good_set_paid [OF t(1) this, of "if \<not> is_paid t then Some now else None" now]
  have "good_rewrite now False (transactions_tbl d)
     (\<lambda>r. if t_id r = tid \<and> user_id r = uid
               then r\<lparr>is_paid := \<not> is_paid t, paid_at := (if \<not> is_paid t then Some now else None)\<rparr> else r)"
    by simp
  then show ?thesis
    using Inr vd tbl by (simp add: state_after_def shaped_map)
qed

lemma shaped_weaken: "shaped now False old new \<Longrightarrow> shaped now b old new"
  unfolding shaped_def good_rewrite_def paid_step_def by blast

lemma shaped_run_write:
  "shaped now (restamps w) (transactions_tbl d) (transactions_tbl (run_write d auth now today w))"
proof (cases w)
  case (Create new_id p)
  then show ?thesis by (simp add: run_write_def shaped_create)
next
  case (Update tid p)
  then show ?thesis by (simp add: run_write_def restamps_def shaped_update)
next
  case (MarkPaid tid)
  then show ?thesis by (simp add: run_write_def restamps_def shaped_markAsPaid)
next
  case (MarkUnpaid tid)
  then show ?thesis by (simp add: run_write_def restamps_def shaped_markAsUnpaid)
next
  case (Toggle tid)
  then show ?thesis by (simp add: run_write_def restamps_def shaped_toggle)
qed

text \<open>
  Claim C2, as the code has it. Every write (create, update, mark-paid, mark-unpaid,
  toggle; failed or not) keeps the invariant that a row is paid exactly when its
  \<open>paid_at\<close> is not null. Rows keep their place and id; \<open>paid_at\<close> of a row becomes \<open>now\<close>
  when the write turns the flag on, null when it turns the flag off, and is otherwise
  unchanged, except that an update whose body has \<open>is_paid = true\<close> writes \<open>now\<close> also into
  a row that was already paid.
\<close>

theorem paid_at_follows_is_paid:
  assumes "list_all paid_inv (transactions_tbl d)"
  shows "list_all paid_inv (transactions_tbl (run_write d auth now today w)) \<and>
         length (transactions_tbl d) \<le> length (transactions_tbl (run_write d auth now today w)) \<and>
         (\<forall>i < length (transactions_tbl d).
            t_id (transactions_tbl (run_write d auth now today w) ! i) = t_id (transactions_tbl d ! i) \<and>
            paid_step now (restamps w) (transactions_tbl d ! i)
              (transactions_tbl (run_write d auth now today w) ! i))"
proof -
  from shaped_run_write [of now w d auth today] obtain g rows where
    new: "transactions_tbl (run_write d auth now today w) = map g (transactions_tbl d) @ rows"
    and rows: "list_all paid_inv rows"
    and g: "good_rewrite now (restamps w) (transactions_tbl d) g"
    unfolding shaped_def by blast
  have each: "paid_inv (g r) \<and> t_id (g r) = t_id r \<and> paid_step now (restamps w) r (g r)"
    if "r \<in> set (transactions_tbl d)" for r
    using that g assms unfolding good_rewrite_def list_all_iff by blast
  have inv: "list_all paid_inv (map g (transactions_tbl d) @ rows)"
    using rows each by (auto simp: list_all_iff)
  have nth: "(map g (transactions_tbl d) @ rows) ! i = g (transactions_tbl d ! i)"
    if "i < length (transactions_tbl d)" for i
    using that by (simp add: nth_append)
  show ?thesis
    unfolding new using inv nth each by simp
qed

text \<open>
  The claim as stated, with \<open>paid_at\<close> set only when the flag turns on, fails for an update
  with \<open>is_paid = true\<close> of the paid row \<open>''t1''\<close>: its \<open>paid_at\<close> moves from 7 to 9.
\<close>

theorem paid_at_restamped_counterexample:
  "list_all paid_inv (transactions_tbl ex_db) \<and>
   is_paid (transactions_tbl ex_db ! 0) \<and> paid_at (transactions_tbl ex_db ! 0) = Some 7 \<and>
   is_paid (transactions_tbl (run_write ex_db (Some ''u1'') 9 9 (Update ''t1'' ex_mark_paid)) ! 0) \<and>
   paid_at (transactions_tbl (run_write ex_db (Some ''u1'') 9 9 (Update ''t1'' ex_mark_paid)) ! 0) = Some 9 \<and>
   \<not> paid_step 9 False (transactions_tbl ex_db ! 0)
        (transactions_tbl (run_write ex_db (Some ''u1'') 9 9 (Update ''t1'' ex_mark_paid)) ! 0)"
proof -
  have own: "own_transaction ex_db ''u1'' ''t1'' = Some ex_income"
    by (simp add: own_transaction_def rls_transactions_def ex_db_def ex_income_def ex_foreign_def
        ex_expense_def ex_groceries_def)
  have chk: "store_check_tx ex_db (updateData ex_mark_paid 9 ex_income)"
    by (simp add: store_check_tx_def updateData_def ex_mark_paid_def ex_empty_payload_def
        ex_income_def valid_type_def)
  have nocat: "\<not> nonempty (p_category_id ex_mark_paid)"
    by (simp add: nonempty_def ex_mark_paid_def ex_empty_payload_def)
  have run: "transactions_tbl (run_write ex_db (Some ''u1'') 9 9 (Update ''t1'' ex_mark_paid)) =
     map (\<lambda>r. if t_id r = ''t1'' \<and> user_id r = ''u1'' then updateData ex_mark_paid 9 r else r)
       (transactions_tbl ex_db)"
    by (simp add: run_write_def updateTransaction_def requireAuth_def update_transaction_def own chk
        state_after_def nocat)
  have row0: "transactions_tbl (run_write ex_db (Some ''u1'') 9 9 (Update ''t1'' ex_mark_paid)) ! 0
      = updateData ex_mark_paid 9 ex_income"
    unfolding run by (simp add: ex_db_def ex_income_def)
  have old0: "transactions_tbl ex_db ! 0 = ex_income"
    by (simp add: ex_db_def)
  have inv: "list_all paid_inv (transactions_tbl ex_db)"
    by (simp add: paid_inv_def ex_db_def ex_income_def ex_foreign_def ex_expense_def ex_groceries_def)
  have vals: "is_paid ex_income" "paid_at ex_income = Some 7"
    "is_paid (updateData ex_mark_paid 9 ex_income)"
    "paid_at (updateData ex_mark_paid 9 ex_income) = Some 9"
    by (simp_all add: updateData_def ex_mark_paid_def ex_empty_payload_def ex_income_def)
  have bad: "\<not> paid_step 9 False ex_income (updateData ex_mark_paid 9 ex_income)"
    using vals by (simp add: paid_step_def)
  show ?thesis
    unfolding row0 old0 using inv vals bad by simp
qed

theorem paid_at_follows_is_paid_witness:
  "list_all paid_inv (transactions_tbl ex_db) \<and>
   list_all paid_inv (transactions_tbl (run_write ex_db (Some ''u1'') 9 9 (Update ''t1'' ex_mark_paid))) \<and>
   paid_step 9 True (transactions_tbl ex_db ! 0)
     (transactions_tbl (run_write ex_db (Some ''u1'') 9 9 (Update ''t1'' ex_mark_paid)) ! 0)"
proof -
  have inv: "list_all paid_inv (transactions_tbl ex_db)"
    by (simp add: paid_inv_def ex_db_def ex_income_def ex_foreign_def ex_expense_def ex_groceries_def)
  have len: "0 < length (transactions_tbl ex_db)"
    by (simp add: ex_db_def)
  have rs: "restamps (Update ''t1'' ex_mark_paid)"
    by (simp add: restamps_def ex_mark_paid_def)
  note r = paid_at_follows_is_paid [OF inv, of "Some ''u1''" 9 9 "Update ''t1'' ex_mark_paid"]
  from r have a: "list_all paid_inv
      (transactions_tbl (run_write ex_db (Some ''u1'') 9 9 (Update ''t1'' ex_mark_paid)))"
    by blast
  from r len have "paid_step 9 (restamps (Update ''t1'' ex_mark_paid)) (transactions_tbl ex_db ! 0)
     (transactions_tbl (run_write ex_db (Some ''u1'') 9 9 (Update ''t1'' ex_mark_paid)) ! 0)"
    by blast
  then have b: "paid_step 9 True (transactions_tbl ex_db ! 0)
     (transactions_tbl (run_write ex_db (Some ''u1'') 9 9 (Update ''t1'' ex_mark_paid)) ! 0)"
    using rs by simp
  show ?thesis
    by (intro conjI) (fact inv a b)+
qed

section \<open>The three payment transitions\<close>

text \<open>
  Claim C3. For a transaction \<open>t\<close> of the caller: \<open>markAsPaid\<close> answers with the
  400 error 'already paid' when \<open>t\<close> is paid and the stored row, with its \<open>paid_at\<close>, stays
  as it was; otherwise it stores \<open>is_paid = true\<close> and \<open>paid_at = now\<close>. \<open>markAsUnpaid\<close>
  answers with the 400 error 'already unpaid' when \<open>t\<close> is unpaid, and otherwise stores
  \<open>is_paid = false\<close> and \<open>paid_at = null\<close>. \<open>togglePaymentStatus\<close> always succeeds and
  stores the negated flag, with \<open>paid_at = now\<close> or \<open>null\<close> to match.
\<close>

theorem payment_transitions:
  assumes own: "own_transaction d uid tid = Some t"
    and tid: "tid \<noteq> []"
    and ok: "store_check_tx d t"
  shows "(is_paid t \<longrightarrow>
            markAsPaid d (Some uid) now tid = Inl (HttpError 400 AlreadyPaid) \<and>
            own_transaction (state_after d (markAsPaid d (Some uid) now tid)) uid tid = Some t) \<and>
         (\<not> is_paid t \<longrightarrow>
            (\<exists>v d'. markAsPaid d (Some uid) now tid = Inr (v, d') \<and>
               tx v = t\<lparr>is_paid := True, paid_at := Some now\<rparr> \<and>
               own_transaction d' uid tid = Some (t\<lparr>is_paid := True, paid_at := Some now\<rparr>))) \<and>
         (\<not> is_paid t \<longrightarrow>
            markAsUnpaid d (Some uid) tid = Inl (HttpError 400 AlreadyUnpaid) \<and>
            own_transaction (state_after d (markAsUnpaid d (Some uid) tid)) uid tid = Some t) \<and>
         (is_paid t \<longrightarrow>
            (\<exists>v d'. markAsUnpaid d (Some uid) tid = Inr (v, d') \<and>
               tx v = t\<lparr>is_paid := False, paid_at := None\<rparr> \<and>
               own_transaction d' uid tid = Some (t\<lparr>is_paid := False, paid_at := None\<rparr>))) \<and>
         (\<exists>v d'. togglePaymentStatus d (Some uid) now tid = Inr (v, d') \<and>
            tx v = t\<lparr>is_paid := \<not> is_paid t, paid_at := (if is_paid t then None else Some now)\<rparr> \<and>
            own_transaction d' uid tid =
              Some (t\<lparr>is_paid := \<not> is_paid t, paid_at := (if is_paid t then None else Some now)\<rparr>))"
proof -
  have chk: "store_check_tx d (t\<lparr>is_paid := b, paid_at := pa\<rparr>)" for b pa
    using ok by (simp add: store_check_tx_def)
  have paid_conflict: "markAsPaid d (Some uid) now tid = Inl (HttpError 400 AlreadyPaid)" if "is_paid t"
    using that by (simp add: markAsPaid_def requireAuth_def tid own)
  have unpaid_conflict: "markAsUnpaid d (Some uid) tid = Inl (HttpError 400 AlreadyUnpaid)" if "\<not> is_paid t"
    using that by (simp add: markAsUnpaid_def requireAuth_def tid own)
  have pay: "\<exists>v d'. markAsPaid d (Some uid) now tid = Inr (v, d') \<and>
               tx v = t\<lparr>is_paid := True, paid_at := Some now\<rparr> \<and>
               own_transaction d' uid tid = Some (t\<lparr>is_paid := True, paid_at := Some now\<rparr>)"
    if "\<not> is_paid t"
  proof -
    from update_transaction_ok [OF own, of "\<lambda>r. r\<lparr>is_paid := True, paid_at := Some now\<rparr>"] chk
    obtain d' where "update_transaction d uid tid (\<lambda>r. r\<lparr>is_paid := True, paid_at := Some now\<rparr>)
        = Inr (t\<lparr>is_paid := True, paid_at := Some now\<rparr>, d')"
      "own_transaction d' uid tid = Some (t\<lparr>is_paid := True, paid_at := Some now\<rparr>)"
      by auto
    with that show ?thesis
      by (simp add: markAsPaid_def requireAuth_def tid own with_category_def)
  qed
  have unpay: "\<exists>v d'. markAsUnpaid d (Some uid) tid = Inr (v, d') \<and>
               tx v = t\<lparr>is_paid := False, paid_at := None\<rparr> \<and>
               own_transaction d' uid tid = Some (t\<lparr>is_paid := False, paid_at := None\<rparr>)"
    if "is_paid t"
  proof -
    from update_transaction_ok [OF own, of "\<lambda>r. r\<lparr>is_paid := False, paid_at := None\<rparr>"] chk
    obtain d' where "update_transaction d uid tid (\<lambda>r. r\<lparr>is_paid := False, paid_at := None\<rparr>)
        = Inr (t\<lparr>is_paid := False, paid_at := None\<rparr>, d')"
      "own_transaction d' uid tid = Some (t\<lparr>is_paid := False, paid_at := None\<rparr>)"
      by auto
    with that show ?thesis
      by (simp add: markAsUnpaid_def requireAuth_def tid own with_category_def)
  qed
  have toggle: "\<exists>v d'. togglePaymentStatus d (Some uid) now tid = Inr (v, d') \<and>
            tx v = t\<lparr>is_paid := \<not> is_paid t, paid_at := (if is_paid t then None else Some now)\<rparr> \<and>
            own_transaction d' uid tid =
              Some (t\<lparr>is_paid := \<not> is_paid t, paid_at := (if is_paid t then None else Some now)\<rparr>)"
  proof -
    let ?f = "\<lambda>r::transaction. r\<lparr>is_paid := \<not> is_paid t,
                paid_at := (if \<not> is_paid t then Some now else None)\<rparr>"
    from update_transaction_ok [OF own, of ?f] chk
    obtain d' where "update_transaction d uid tid ?f = Inr (?f t, d')"
      "own_transaction d' uid tid = Some (?f t)"
      by auto
    then show ?thesis
      by (simp add: togglePaymentStatus_def requireAuth_def tid own with_category_def Let_def)
  qed
  show ?thesis
    using paid_conflict unpaid_conflict pay unpay toggle own
    by (simp add: state_after_def)
qed

theorem payment_transitions_witness:
  "own_transaction ex_db ''u1'' ''t2'' = Some ex_expense \<and> store_check_tx ex_db ex_expense \<and>
   \<not> is_paid ex_expense \<and>
   markAsUnpaid ex_db (Some ''u1'') ''t2'' = Inl (HttpError 400 AlreadyUnpaid) \<and>
   (\<exists>v d'. markAsPaid ex_db (Some ''u1'') 20 ''t2'' = Inr (v, d') \<and>
      tx v = ex_expense\<lparr>is_paid := True, paid_at := Some 20\<rparr> \<and>
      own_transaction d' ''u1'' ''t2'' = Some (ex_expense\<lparr>is_paid := True, paid_at := Some 20\<rparr>)) \<and>
   (\<exists>v d'. togglePaymentStatus ex_db (Some ''u1'') 20 ''t2'' = Inr (v, d') \<and>
      tx v = ex_expense\<lparr>is_paid := True, paid_at := Some 20\<rparr>)"
proof -
  have own: "own_transaction ex_db ''u1'' ''t2'' = Some ex_expense"
    by (simp add: own_transaction_def rls_transactions_def ex_db_def ex_income_def ex_foreign_def
        ex_expense_def ex_groceries_def)
  have ne: "''t2'' \<noteq> []"
    by simp
  have ok: "store_check_tx ex_db ex_expense"
    by (simp add: store_check_tx_def valid_type_def ex_expense_def)
  have np: "\<not> is_paid ex_expense"
    by (simp add: ex_expense_def)
  note r = payment_transitions [OF own ne ok, of 20]
  from r np have a: "markAsUnpaid ex_db (Some ''u1'') ''t2'' = Inl (HttpError 400 AlreadyUnpaid)"
    by blast
  from r np have b: "\<exists>v d'. markAsPaid ex_db (Some ''u1'') 20 ''t2'' = Inr (v, d') \<and>
      tx v = ex_expense\<lparr>is_paid := True, paid_at := Some 20\<rparr> \<and>
      own_transaction d' ''u1'' ''t2'' = Some (ex_expense\<lparr>is_paid := True, paid_at := Some 20\<rparr>)"
    by blast
  from r np have c: "\<exists>v d'. togglePaymentStatus ex_db (Some ''u1'') 20 ''t2'' = Inr (v, d') \<and>
      tx v = ex_expense\<lparr>is_paid := True, paid_at := Some 20\<rparr>"
    by auto
  show ?thesis
    by (intro conjI) (fact own ok np a b c)+
qed

section \<open>Listing as a staff caller\<close>





section \<open>The invariant is kept by every request\<close>

text \<open>
  Every handler keeps the invariant of the cashflow tables, so it holds in every state
  reached from the empty store, and with it the ownership of category references.
\<close>

lemma tx_ref_ok_mono:
  "tx_ref_ok cats t \<Longrightarrow> set cats \<subseteq> set cats' \<Longrightarrow> tx_ref_ok cats' t"
  by (auto simp: tx_ref_ok_def list_ex_iff split: option.splits)

lemma tx_ref_ok_cong:
  "category_id t' = category_id t \<Longrightarrow> user_id t' = user_id t \<Longrightarrow> tx_ref_ok cats t' = tx_ref_ok cats t"
  by (simp add: tx_ref_ok_def split: option.splits)

lemma store_inv_refs_owned:
  assumes "store_inv d"
  shows "refs_owned d"
proof -
  from assms have dist: "distinct (map c_id (categories_tbl d))"
    and refs: "list_all (tx_ref_ok (categories_tbl d)) (transactions_tbl d)"
    by (simp_all add: store_inv_def)
  from dist have inj: "inj_on c_id (set (categories_tbl d))"
    by (simp add: distinct_map)
  have "c_user_id c = user_id t"
    if t: "t \<in> set (transactions_tbl d)" "category_id t = Some cid"
      and c: "c \<in> set (categories_tbl d)" "c_id c = cid" for t cid c
  proof -
    from refs t(1) have "tx_ref_ok (categories_tbl d) t"
      by (simp add: list_all_iff)
    with t(2) obtain c' where c': "c' \<in> set (categories_tbl d)" "c_id c' = cid" "c_user_id c' = user_id t"
      by (auto simp: tx_ref_ok_def list_ex_iff)
    from inj c c'(1,2) have "c = c'"
      by (auto dest: inj_onD)
    with c'(3) show ?thesis by simp
  qed
  then show ?thesis
    unfolding refs_owned_def list_all_iff
    by (auto split: option.splits)
qed

lemma store_inv_empty: "store_inv empty_db"
  by (simp add: store_inv_def empty_db_def)

lemma insert_category_Inr:
  "insert_category d uid c0 = Inr (row, d') \<Longrightarrow>
   row = c0 \<and> d' = d\<lparr>categories_tbl := categories_tbl d @ [c0]\<rparr> \<and>
   c_id c0 \<notin> set (map c_id (categories_tbl d))"
  by (auto simp: insert_category_def split: if_splits)

lemma inv_createCategory:
  assumes "store_inv d" and "new_id \<noteq> []"
  shows "store_inv (state_after d (createCategory d auth new_id p))"
proof (cases "createCategory d auth new_id p")
  case (Inl e)
  with assms show ?thesis by (simp add: state_after_def)
next
  case (Inr rd)
  obtain row d' where rd: "rd = (row, d')" by (cases rd)
  from Inr obtain uid c0 where ins: "insert_category d uid c0 = Inr (row, d')" and c0: "c_id c0 = new_id"
    unfolding rd createCategory_def Let_def
    by (auto split: sum.splits option.splits if_splits)
  from insert_category_Inr [OF ins]
  have d': "d' = d\<lparr>categories_tbl := categories_tbl d @ [c0]\<rparr>"
    and fresh: "c_id c0 \<notin> set (map c_id (categories_tbl d))"
    by simp_all
  from assms(1) have "\<forall>t \<in> set (transactions_tbl d). tx_ref_ok (categories_tbl d) t"
    by (simp add: store_inv_def list_all_iff)
  then have "\<forall>t \<in> set (transactions_tbl d). tx_ref_ok (categories_tbl d @ [c0]) t"
    by (auto intro: tx_ref_ok_mono)
  then have "list_all (tx_ref_ok (categories_tbl d @ [c0])) (transactions_tbl d)"
    by (simp add: list_all_iff)
  with assms fresh c0 have "store_inv d'"
    by (simp add: d' store_inv_def)
  then show ?thesis
    using Inr rd by (simp add: state_after_def)
qed

lemma inv_updateCategory:
  assumes "store_inv d"
  shows "store_inv (state_after d (updateCategory d auth cid p))"
proof (cases "updateCategory d auth cid p")
  case (Inl e)
  with assms show ?thesis by (simp add: state_after_def)
next
  case (Inr rd)
  obtain row d' where rd: "rd = (row, d')" by (cases rd)
  from Inr obtain uid c where
    c: "single (filter (\<lambda>c. c_id c = cid \<and> c_user_id c = uid) (rls_categories uid (categories_tbl d))) = Some c"
    and row: "c_id row = c_id c" "c_user_id row = c_user_id c"
    and d': "d' = d\<lparr>categories_tbl :=
        map (\<lambda>c. if c_id c = cid \<and> c_user_id c = uid then row else c) (categories_tbl d)\<rparr>"
    unfolding rd updateCategory_def Let_def
    by (auto split: sum.splits option.splits if_splits)
  define g :: "category \<Rightarrow> category" where
    "g = (\<lambda>c. if c_id c = cid \<and> c_user_id c = uid then row else c)"
  from c have "filter (\<lambda>c. c_id c = cid \<and> c_user_id c = uid) (rls_categories uid (categories_tbl d)) = [c]"
    by (simp add: single_Some_iff)
  then have "c \<in> set (filter (\<lambda>c. c_id c = cid \<and> c_user_id c = uid) (rls_categories uid (categories_tbl d)))"
    by simp
  then have cc: "c_id c = cid" "c_user_id c = uid"
    by simp_all
  have same: "c_id (g x) = c_id x" "c_user_id (g x) = c_user_id x" for x
    using row cc by (simp_all add: g_def)
  have ids: "map c_id (map g (categories_tbl d)) = map c_id (categories_tbl d)"
    by (simp add: same)
  have refs: "tx_ref_ok (map g (categories_tbl d)) t" if "tx_ref_ok (categories_tbl d) t" for t
  proof (cases "category_id t")
    case None
    then show ?thesis by (simp add: tx_ref_ok_def)
  next
    case (Some k)
    with that obtain x where x: "x \<in> set (categories_tbl d)" "c_id x = k" "c_user_id x = user_id t"
      by (auto simp: tx_ref_ok_def list_ex_iff)
    have "g x \<in> set (map g (categories_tbl d))"
      using x(1) by simp
    moreover have "c_id (g x) = k \<and> c_user_id (g x) = user_id t"
      using x(2,3) by (simp add: same)
    ultimately have "\<exists>y \<in> set (map g (categories_tbl d)). c_id y = k \<and> c_user_id y = user_id t"
      by blast
    then show ?thesis
      by (simp add: tx_ref_ok_def Some list_ex_iff)
  qed
  from assms have "\<forall>t \<in> set (transactions_tbl d). tx_ref_ok (categories_tbl d) t"
    by (simp add: store_inv_def list_all_iff)
  then have "\<forall>t \<in> set (transactions_tbl d). tx_ref_ok (map g (categories_tbl d)) t"
    using refs by blast
  then have "list_all (tx_ref_ok (map g (categories_tbl d))) (transactions_tbl d)"
    by (simp add: list_all_iff)
  moreover from assms have "distinct (map c_id (map g (categories_tbl d)))"
    "[] \<notin> set (map c_id (map g (categories_tbl d)))"
    unfolding ids by (simp_all add: store_inv_def)
  ultimately have "store_inv d'"
    unfolding d' g_def [symmetric] by (simp add: store_inv_def del: map_map)
  then show ?thesis
    using Inr rd by (simp add: state_after_def)
qed

lemma inv_deleteCategory:
  assumes "store_inv d"
  shows "store_inv (state_after d (deleteCategory d auth cid))"
proof (cases "deleteCategory d auth cid")
  case (Inl e)
  with assms show ?thesis by (simp add: state_after_def)
next
  case (Inr rd)
  obtain nm d' where rd: "rd = (nm, d')" by (cases rd)
  define h :: "transaction \<Rightarrow> transaction" where "h = (\<lambda>t. if category_id t = Some cid then t\<lparr>category_id := None\<rparr> else t)"
  from Inr obtain uid where
    d': "d' = d\<lparr>categories_tbl :=
                filter (\<lambda>c. \<not> (c_id c = cid \<and> c_user_id c = uid)) (categories_tbl d),
              transactions_tbl := map h (transactions_tbl d)\<rparr>"
    unfolding rd deleteCategory_def h_def
    by (auto split: sum.splits option.splits if_splits)
  define cats where "cats = filter (\<lambda>c. \<not> (c_id c = cid \<and> c_user_id c = uid)) (categories_tbl d)"
  from assms have dist: "distinct (map c_id cats)"
    by (simp add: store_inv_def distinct_map_filter cats_def)
  from assms have ne: "[] \<notin> set (map c_id cats)"
    by (auto simp: store_inv_def cats_def)
  have refs: "tx_ref_ok cats (h t)" if "tx_ref_ok (categories_tbl d) t" for t
  proof (cases "category_id t = Some cid")
    case True
    then show ?thesis by (simp add: tx_ref_ok_def h_def)
  next
    case False
    with that show ?thesis
      by (auto simp: tx_ref_ok_def list_ex_iff h_def cats_def split: option.splits)
  qed
  from assms have "\<forall>t \<in> set (transactions_tbl d). tx_ref_ok (categories_tbl d) t"
    by (simp add: store_inv_def list_all_iff)
  then have "\<forall>t \<in> set (transactions_tbl d). tx_ref_ok cats (h t)"
    using refs by blast
  then have "list_all (tx_ref_ok cats) (map h (transactions_tbl d))"
    by (simp add: list_all_iff)
  with dist ne have "store_inv d'"
    by (simp add: d' store_inv_def cats_def)
  then show ?thesis
    using Inr rd by (simp add: state_after_def)
qed

lemma category_owned_ex:
  "category_owned d uid cid \<Longrightarrow> list_ex (\<lambda>c. c_id c = cid \<and> c_user_id c = uid) (categories_tbl d)"
proof -
  assume "category_owned d uid cid"
  then obtain c where "single (filter (\<lambda>c. c_id c = cid \<and> c_user_id c = uid)
      (rls_categories uid (categories_tbl d))) = Some c"
    by (auto simp: category_owned_def)
  then have "filter (\<lambda>c. c_id c = cid \<and> c_user_id c = uid) (rls_categories uid (categories_tbl d)) = [c]"
    by (simp add: single_Some_iff)
  then have "c \<in> set (filter (\<lambda>c. c_id c = cid \<and> c_user_id c = uid) (rls_categories uid (categories_tbl d)))"
    by simp
  then show ?thesis
    by (auto simp: list_ex_iff rls_categories_def)
qed

lemma inv_createTransaction:
  assumes "store_inv d"
  shows "store_inv (state_after d (createTransaction d auth now today new_id p))"
proof (cases "createTransaction d auth now today new_id p")
  case (Inl e)
  with assms show ?thesis by (simp add: state_after_def)
next
  case (Inr vd)
  obtain v d' where vd: "vd = (v, d')" by (cases vd)
  from Inr obtain uid where
    ins: "insert_transaction d uid (new_transaction uid now today new_id p) = Inr (tx v, d')"
    and chk: "nonempty (p_category_id p) \<longrightarrow>
        category_owned d uid (case p_category_id p of None \<Rightarrow> [] | Some c \<Rightarrow> c)"
    unfolding vd createTransaction_def
    by (auto simp: with_category_def split: sum.splits option.splits if_splits)
  from ins have d': "d' = d\<lparr>transactions_tbl := transactions_tbl d @ [new_transaction uid now today new_id p]\<rparr>"
    by (auto simp: insert_transaction_def split: if_splits)
  have "tx_ref_ok (categories_tbl d) (new_transaction uid now today new_id p)"
  proof (cases "nonempty (p_category_id p)")
    case False
    then show ?thesis by (simp add: tx_ref_ok_def new_transaction_def)
  next
    case True
    then obtain c where c: "p_category_id p = Some c"
      by (auto simp: nonempty_def split: option.splits)
    with True chk have "category_owned d uid c" by simp
    from category_owned_ex [OF this] show ?thesis
      using True c by (simp add: tx_ref_ok_def new_transaction_def)
  qed
  with assms show ?thesis
    using Inr vd d' by (simp add: state_after_def store_inv_def)
qed

lemma inv_update_transaction:
  assumes inv: "store_inv d"
    and up: "update_transaction d uid tid f = Inr (r, d')"
    and ok: "\<And>t. own_transaction d uid tid = Some t \<Longrightarrow> store_check_tx d (f t) \<Longrightarrow>
               tx_ref_ok (categories_tbl d) t \<Longrightarrow> tx_ref_ok (categories_tbl d) (f t)"
  shows "store_inv d'"
proof -
  define g :: "transaction \<Rightarrow> transaction" where "g = (\<lambda>r. if t_id r = tid \<and> user_id r = uid then f r else r)"
  from up obtain t where t: "own_transaction d uid tid = Some t" and chk: "store_check_tx d (f t)"
    and d': "d' = d\<lparr>transactions_tbl := map g (transactions_tbl d)\<rparr>"
    by (auto simp: update_transaction_def g_def split: option.splits if_splits)
  have each: "tx_ref_ok (categories_tbl d) (g x)"
    if x: "x \<in> set (transactions_tbl d)" "tx_ref_ok (categories_tbl d) x" for x
  proof (cases "t_id x = tid \<and> user_id x = uid")
    case False
    with x show ?thesis by (auto simp: g_def)
  next
    case True
    then have "x = t"
      using own_transaction_unique(4) [OF t x(1)] by simp
    with True ok [OF t chk] x(2) show ?thesis by (simp add: g_def)
  qed
  from inv have "\<forall>x \<in> set (transactions_tbl d). tx_ref_ok (categories_tbl d) x"
    by (simp add: store_inv_def list_all_iff)
  then have "\<forall>x \<in> set (transactions_tbl d). tx_ref_ok (categories_tbl d) (g x)"
    using each by blast
  then have "list_all (tx_ref_ok (categories_tbl d)) (map g (transactions_tbl d))"
    by (simp add: list_all_iff)
  with inv show ?thesis
    by (simp add: d' store_inv_def)
qed

lemma inv_updateTransaction:
  assumes "store_inv d"
  shows "store_inv (state_after d (updateTransaction d auth now tid p))"
proof (cases "updateTransaction d auth now tid p")
  case (Inl e)
  with assms show ?thesis by (simp add: state_after_def)
next
  case (Inr vd)
  obtain v d' where vd: "vd = (v, d')" by (cases vd)
  from Inr obtain uid where
    up: "update_transaction d uid tid (updateData p now) = Inr (tx v, d')"
    and chk: "nonempty (p_category_id p) \<longrightarrow>
        category_owned d uid (case p_category_id p of None \<Rightarrow> [] | Some c \<Rightarrow> c)"
    unfolding vd updateTransaction_def
    by (auto simp: with_category_def split: sum.splits option.splits if_splits)
  have "store_inv d'"
  proof (rule inv_update_transaction [OF assms up])
    fix t assume t: "own_transaction d uid tid = Some t"
      and sc: "store_check_tx d (updateData p now t)"
      and ref: "tx_ref_ok (categories_tbl d) t"
    have own: "user_id t = uid"
      by (rule own_transaction_unique(3) [OF t])
    show "tx_ref_ok (categories_tbl d) (updateData p now t)"
    proof (cases "p_category_id p")
      case None
      then have "tx_ref_ok (categories_tbl d) (updateData p now t) = tx_ref_ok (categories_tbl d) t"
        by (intro tx_ref_ok_cong) (simp_all add: updateData_def)
      with ref show ?thesis by simp
    next
      case (Some c)
      show ?thesis
      proof (cases "c = []")
        case True
        with Some sc have "[] \<in> set (map c_id (categories_tbl d))"
          by (simp add: store_check_tx_def updateData_def)
        with assms show ?thesis by (simp add: store_inv_def)
      next
        case False
        with Some chk have "category_owned d uid c"
          by (simp add: nonempty_def)
        from category_owned_ex [OF this] show ?thesis
          using Some own by (simp add: tx_ref_ok_def updateData_def)
      qed
    qed
  qed
  then show ?thesis
    using Inr vd by (simp add: state_after_def)
qed

lemma inv_paid_write:
  assumes "store_inv d" and "update_transaction d uid tid (\<lambda>r. r\<lparr>is_paid := b, paid_at := pa\<rparr>) = Inr (r, d')"
  shows "store_inv d'"
proof (rule inv_update_transaction [OF assms])
  fix t assume "tx_ref_ok (categories_tbl d) t"
  moreover have "tx_ref_ok (categories_tbl d) (t\<lparr>is_paid := b, paid_at := pa\<rparr>)
      = tx_ref_ok (categories_tbl d) t"
    by (intro tx_ref_ok_cong) simp_all
  ultimately show "tx_ref_ok (categories_tbl d) (t\<lparr>is_paid := b, paid_at := pa\<rparr>)"
    by simp
qed

lemma inv_markAsPaid:
  assumes "store_inv d"
  shows "store_inv (state_after d (markAsPaid d auth now tid))"
proof (cases "markAsPaid d auth now tid")
  case (Inl e)
  with assms show ?thesis by (simp add: state_after_def)
next
  case (Inr vd)
  obtain v d' where vd: "vd = (v, d')" by (cases vd)
  from Inr obtain uid where
    "update_transaction d uid tid (\<lambda>r. r\<lparr>is_paid := True, paid_at := Some now\<rparr>) = Inr (tx v, d')"
    unfolding vd markAsPaid_def
    by (auto simp: with_category_def split: sum.splits option.splits if_splits)
  from inv_paid_write [OF assms this] show ?thesis
    using Inr vd by (simp add: state_after_def)
qed

lemma inv_markAsUnpaid:
  assumes "store_inv d"
  shows "store_inv (state_after d (markAsUnpaid d auth tid))"
proof (cases "markAsUnpaid d auth tid")
  case (Inl e)
  with assms show ?thesis by (simp add: state_after_def)
next
  case (Inr vd)
  obtain v d' where vd: "vd = (v, d')" by (cases vd)
  from Inr obtain uid where
    "update_transaction d uid tid (\<lambda>r. r\<lparr>is_paid := False, paid_at := None\<rparr>) = Inr (tx v, d')"
    unfolding vd markAsUnpaid_def
    by (auto simp: with_category_def split: sum.splits option.splits if_splits)
  from inv_paid_write [OF assms this] show ?thesis
    using Inr vd by (simp add: state_after_def)
qed

lemma inv_toggle:
  assumes "store_inv d"
  shows "store_inv (state_after d (togglePaymentStatus d auth now tid))"
proof (cases "togglePaymentStatus d auth now tid")
  case (Inl e)
  with assms show ?thesis by (simp add: state_after_def)
next
  case (Inr vd)
  obtain v d' where vd: "vd = (v, d')" by (cases vd)
  from Inr obtain uid b pa where
    "update_transaction d uid tid (\<lambda>r. r\<lparr>is_paid := b, paid_at := pa\<rparr>) = Inr (tx v, d')"
    unfolding vd togglePaymentStatus_def Let_def
    by (auto simp: with_category_def split: sum.splits option.splits if_splits)
  from inv_paid_write [OF assms this] show ?thesis
    using Inr vd by (simp add: state_after_def)
qed

lemma inv_deleteTransaction:
  assumes "store_inv d"
  shows "store_inv (case deleteTransaction d auth tid of Inl e \<Rightarrow> d | Inr d' \<Rightarrow> d')"
  using assms
  by (auto simp: deleteTransaction_def store_inv_def list_all_iff split: sum.splits option.splits if_splits)

lemma cashflow_usersPut:
  "categories_tbl (state_after d (usersPut d auth body)) = categories_tbl d \<and>
   transactions_tbl (state_after d (usersPut d auth body)) = transactions_tbl d"
  by (auto simp: state_after_def usersPut_def Let_def
      split: sum.splits option.splits if_splits prod.splits)

lemma cashflow_usersPost:
  "categories_tbl (state_after d (usersPost d created body)) = categories_tbl d \<and>
   transactions_tbl (state_after d (usersPost d created body)) = transactions_tbl d"
  by (auto simp: state_after_def usersPost_def
      split: sum.splits option.splits if_splits prod.splits)

lemma cashflow_change_staff:
  "categories_tbl (state_after d (change_staff d auth target b)) = categories_tbl d \<and>
   transactions_tbl (state_after d (change_staff d auth target b)) = transactions_tbl d"
  by (auto simp: state_after_def change_staff_def
      split: sum.splits option.splits if_splits prod.splits)

lemma store_inv_perform:
  assumes "store_inv d" and "generated_id_ok r"
  shows "store_inv (perform d r)"
proof (cases r)
  case (CreateCategory auth new_id p)
  with assms show ?thesis
    by (simp add: perform_def generated_id_ok_def inv_createCategory)
next
  case (UsersPost created body)
  with assms cashflow_usersPost [of d created body] show ?thesis
    by (simp add: perform_def store_inv_def)
next
  case (UsersPut auth body)
  with assms cashflow_usersPut [of d auth body] show ?thesis
    by (simp add: perform_def store_inv_def)
next
  case (ChangeStaff auth target b)
  with assms cashflow_change_staff [of d auth target b] show ?thesis
    by (simp add: perform_def store_inv_def)
qed (use assms in \<open>simp_all add: perform_def inv_updateCategory inv_deleteCategory
      inv_createTransaction inv_updateTransaction inv_deleteTransaction inv_markAsPaid
      inv_markAsUnpaid inv_toggle\<close>)

lemma store_inv_reachable:
  "store_inv d \<Longrightarrow> list_all generated_id_ok rs \<Longrightarrow> store_inv (foldl perform d rs)"
  by (induction rs arbitrary: d) (simp_all add: store_inv_perform)

lemma refs_owned_reachable:
  "list_all generated_id_ok rs \<Longrightarrow> refs_owned (foldl perform empty_db rs)"
  by (rule store_inv_refs_owned) (rule store_inv_reachable [OF store_inv_empty])

section \<open>Deleting a category\<close>

lemma refs_ownedD:
  "refs_owned d \<Longrightarrow> t \<in> set (transactions_tbl d) \<Longrightarrow> category_id t = Some cid \<Longrightarrow>
   c \<in> set (categories_tbl d) \<Longrightarrow> c_id c = cid \<Longrightarrow> user_id t = c_user_id c"
  unfolding refs_owned_def list_all_iff by fastforce

lemma delete_transactions_tbl:
  "list_all (\<lambda>tid. tid \<noteq> []) tids \<Longrightarrow>
   transactions_tbl (delete_transactions d (Some uid) tids) =
     filter (\<lambda>t. \<not> (t_id t \<in> set tids \<and> user_id t = uid)) (transactions_tbl d) \<and>
   categories_tbl (delete_transactions d (Some uid) tids) = categories_tbl d"
proof (induction tids arbitrary: d)
  case Nil
  show ?case by simp
next
  case (Cons tid tids)
  then have ne: "tid \<noteq> []" and rest: "list_all (\<lambda>tid. tid \<noteq> []) tids"
    by simp_all
  let ?d1 = "d\<lparr>transactions_tbl :=
       filter (\<lambda>t. \<not> (t_id t = tid \<and> user_id t = uid)) (transactions_tbl d)\<rparr>"
  have step: "deleteTransaction d (Some uid) tid = Inr ?d1"
    using ne by (simp add: deleteTransaction_def requireAuth_def)
  have "transactions_tbl (delete_transactions ?d1 (Some uid) tids) =
      filter (\<lambda>t. \<not> (t_id t \<in> set tids \<and> user_id t = uid)) (transactions_tbl ?d1) \<and>
    categories_tbl (delete_transactions ?d1 (Some uid) tids) = categories_tbl ?d1"
    by (rule Cons.IH [OF rest])
  then show ?case
    by (auto simp: step intro: filter_cong)
qed

lemma own_category_facts:
  assumes "single (filter (\<lambda>c. c_id c = cid \<and> c_user_id c = uid) (categories_tbl d)) = Some c"
  shows "c \<in> set (categories_tbl d)" "c_id c = cid" "c_user_id c = uid"
    "{x \<in> set (categories_tbl d). c_id x = cid \<and> c_user_id x = uid} = {c}"
proof -
  from assms have eq: "filter (\<lambda>c. c_id c = cid \<and> c_user_id c = uid) (categories_tbl d) = [c]"
    by (simp add: single_Some_iff)
  then have "set (filter (\<lambda>c. c_id c = cid \<and> c_user_id c = uid) (categories_tbl d)) = {c}"
    by simp
  then show "{x \<in> set (categories_tbl d). c_id x = cid \<and> c_user_id x = uid} = {c}"
    by simp
  then show "c \<in> set (categories_tbl d)" "c_id c = cid" "c_user_id c = uid"
    by blast+
qed

lemma deleteCategory_unused:
  assumes own: "single (filter (\<lambda>c. c_id c = cid \<and> c_user_id c = uid) (categories_tbl d)) = Some c"
    and cid: "cid \<noteq> []"
    and unused: "\<forall>t \<in> set (transactions_tbl d). category_id t \<noteq> Some cid"
  shows "\<exists>d'. deleteCategory d (Some uid) cid = Inr (c_name c, d') \<and>
           set (categories_tbl d') = set (categories_tbl d) - {c} \<and>
           transactions_tbl d' = transactions_tbl d"
proof -
  have own': "single (filter (\<lambda>c. c_id c = cid \<and> c_user_id c = uid)
       (rls_categories uid (categories_tbl d))) = Some c"
    using own by (simp add: rls_categories_def conj_commute cong: conj_cong)
  have none: "filter (\<lambda>t. category_id t = Some cid) (rls_transactions uid (transactions_tbl d)) = []"
    using unused by (simp add: rls_transactions_def filter_empty_conv)
  have same: "map (\<lambda>t. if category_id t = Some cid then t\<lparr>category_id := None\<rparr> else t) (transactions_tbl d)
      = transactions_tbl d"
    using unused by (simp add: map_idI)
  have rest: "set (filter (\<lambda>c. \<not> (c_id c = cid \<and> c_user_id c = uid)) (categories_tbl d))
      = set (categories_tbl d) - {c}"
    using own_category_facts(4) [OF own] by auto
  show ?thesis
    using rest by (simp add: deleteCategory_def requireAuth_def cid own' none same)
qed

text \<open>
  Claim C5. Let \<open>c\<close> be the category with id \<open>cid\<close> owned by the caller, in a state where
  category references respect ownership. If a transaction references \<open>cid\<close>, the delete
  is answered with the 400 error 'category has transactions' and the state stays as it
  was. If none does, the delete succeeds and removes exactly \<open>c\<close>. After the caller has
  deleted every transaction that referenced \<open>cid\<close>, the delete succeeds.
\<close>

theorem category_delete_guard:
  assumes inv: "refs_owned d"
    and own: "single (filter (\<lambda>c. c_id c = cid \<and> c_user_id c = uid) (categories_tbl d)) = Some c"
    and cid: "cid \<noteq> []"
    and ids: "list_all (\<lambda>t. t_id t \<noteq> []) (transactions_tbl d)"
  shows "((\<exists>t \<in> set (transactions_tbl d). category_id t = Some cid) \<longrightarrow>
            deleteCategory d (Some uid) cid = Inl (HttpError 400 CategoryInUse) \<and>
            state_after d (deleteCategory d (Some uid) cid) = d) \<and>
         ((\<forall>t \<in> set (transactions_tbl d). category_id t \<noteq> Some cid) \<longrightarrow>
            (\<exists>d'. deleteCategory d (Some uid) cid = Inr (c_name c, d') \<and>
               set (categories_tbl d') = set (categories_tbl d) - {c} \<and>
               transactions_tbl d' = transactions_tbl d)) \<and>
         (\<exists>d'. deleteCategory
                  (delete_transactions d (Some uid)
                     (map t_id (filter (\<lambda>t. category_id t = Some cid) (transactions_tbl d))))
                  (Some uid) cid = Inr (c_name c, d') \<and>
               set (categories_tbl d') = set (categories_tbl d) - {c})"
proof -
  note c = own_category_facts [OF own]
  have own': "single (filter (\<lambda>c. c_id c = cid \<and> c_user_id c = uid)
       (rls_categories uid (categories_tbl d))) = Some c"
    using own by (simp add: rls_categories_def conj_commute cong: conj_cong)
  have conflict: "deleteCategory d (Some uid) cid = Inl (HttpError 400 CategoryInUse)"
    if "\<exists>t \<in> set (transactions_tbl d). category_id t = Some cid"
  proof -
    from that obtain t where t: "t \<in> set (transactions_tbl d)" "category_id t = Some cid"
      by blast
    have "user_id t = uid"
      using refs_ownedD [OF inv t c(1,2)] c(3) by simp
    with t have "t \<in> set (filter (\<lambda>t. category_id t = Some cid) (rls_transactions uid (transactions_tbl d)))"
      by (simp add: rls_transactions_def)
    then have "filter (\<lambda>t. category_id t = Some cid) (rls_transactions uid (transactions_tbl d)) \<noteq> []"
      by (metis empty_iff empty_set)
    then have "take 1 (filter (\<lambda>t. category_id t = Some cid) (rls_transactions uid (transactions_tbl d))) \<noteq> []"
      by simp
    then show ?thesis
      by (simp add: deleteCategory_def requireAuth_def cid own')
  qed
  define tids where "tids = map t_id (filter (\<lambda>t. category_id t = Some cid) (transactions_tbl d))"
  define d1 where "d1 = delete_transactions d (Some uid) tids"
  have tids_ne: "list_all (\<lambda>tid. tid \<noteq> []) tids"
    using ids by (auto simp: tids_def list_all_iff)
  from delete_transactions_tbl [OF tids_ne, of d uid]
  have d1_tx: "transactions_tbl d1 =
      filter (\<lambda>t. \<not> (t_id t \<in> set tids \<and> user_id t = uid)) (transactions_tbl d)"
    and d1_cat: "categories_tbl d1 = categories_tbl d"
    by (simp_all add: d1_def)
  have d1_unused: "\<forall>t \<in> set (transactions_tbl d1). category_id t \<noteq> Some cid"
  proof
    fix t assume "t \<in> set (transactions_tbl d1)"
    then have t: "t \<in> set (transactions_tbl d)" "\<not> (t_id t \<in> set tids \<and> user_id t = uid)"
      by (simp_all add: d1_tx)
    show "category_id t \<noteq> Some cid"
    proof
      assume ref: "category_id t = Some cid"
      then have "t_id t \<in> set tids"
        using t(1) by (auto simp: tids_def)
      moreover have "user_id t = uid"
        using refs_ownedD [OF inv t(1) ref c(1,2)] c(3) by simp
      ultimately show False using t(2) by simp
    qed
  qed
  have own1: "single (filter (\<lambda>c. c_id c = cid \<and> c_user_id c = uid) (categories_tbl d1)) = Some c"
    by (simp add: d1_cat own)
  from deleteCategory_unused [OF own1 cid d1_unused]
  have retry: "\<exists>d'. deleteCategory d1 (Some uid) cid = Inr (c_name c, d') \<and>
      set (categories_tbl d') = set (categories_tbl d) - {c}"
    by (auto simp: d1_cat)
  show ?thesis
    using conflict deleteCategory_unused [OF own cid] retry
    unfolding d1_def tids_def by (auto simp: state_after_def)
qed

theorem category_delete_guard_witness:
  "refs_owned ex_db \<and>
   deleteCategory ex_db (Some ''u1'') ''c1'' = Inl (HttpError 400 CategoryInUse) \<and>
   (\<exists>d'. deleteCategory (delete_transactions ex_db (Some ''u1'') [''t4'']) (Some ''u1'') ''c1''
            = Inr (''Food'', d') \<and>
          set (categories_tbl d') = set (categories_tbl ex_db) - {ex_food})"
proof -
  have inv: "refs_owned ex_db"
    by (simp add: refs_owned_def ex_db_def ex_income_def ex_foreign_def ex_expense_def
        ex_groceries_def ex_food_def ex_salary_def)
  have own: "single (filter (\<lambda>c. c_id c = ''c1'' \<and> c_user_id c = ''u1'') (categories_tbl ex_db)) = Some ex_food"
    by (simp add: ex_db_def ex_food_def ex_salary_def)
  have cid: "''c1'' \<noteq> []" by simp
  have ids: "list_all (\<lambda>t. t_id t \<noteq> []) (transactions_tbl ex_db)"
    by (simp add: ex_db_def ex_income_def ex_foreign_def ex_expense_def ex_groceries_def)
  have used: "\<exists>t \<in> set (transactions_tbl ex_db). category_id t = Some ''c1''"
    by (simp add: ex_db_def ex_groceries_def)
  have tids: "map t_id (filter (\<lambda>t. category_id t = Some ''c1'') (transactions_tbl ex_db)) = [''t4'']"
    by (simp add: ex_db_def ex_income_def ex_foreign_def ex_expense_def ex_groceries_def)
  have name: "c_name ex_food = ''Food''"
    by (simp add: ex_food_def)
  note r = category_delete_guard [OF inv own cid ids]
  from r used have a: "deleteCategory ex_db (Some ''u1'') ''c1'' = Inl (HttpError 400 CategoryInUse)"
    by blast
  from r have b: "\<exists>d'. deleteCategory (delete_transactions ex_db (Some ''u1'') [''t4'']) (Some ''u1'') ''c1''
            = Inr (''Food'', d') \<and>
          set (categories_tbl d') = set (categories_tbl ex_db) - {ex_food}"
    unfolding tids name by blast
  show ?thesis
    by (intro conjI) (fact inv a b)+
qed

section \<open>A category reference that is not the caller's\<close>

lemma not_category_owned:
  "list_all (\<lambda>c. c_id c = cid \<longrightarrow> c_user_id c \<noteq> uid) (categories_tbl d) \<Longrightarrow> \<not> category_owned d uid cid"
  unfolding category_owned_def
  by (simp add: list_all_iff rls_categories_def filter_False)

text \<open>
  Claim C6, as the code has it. Let the body of a create or an update name, by a
  non-empty \<open>category_id\<close>, a category that does not exist or belongs to another user.
  Then no transaction is created or modified. The error is the 400 'category not found
  or not of the user' of the handler once the earlier checks have passed: for a create
  the required fields \<open>type\<close>, \<open>amount\<close> and \<open>description\<close> are there, for an update the
  id in the path is not empty.
\<close>

theorem foreign_category_rejected:
  assumes cat: "p_category_id p = Some cid" and ne: "cid \<noteq> []"
    and foreign: "list_all (\<lambda>c. c_id c = cid \<longrightarrow> c_user_id c \<noteq> uid) (categories_tbl d)"
  shows "(nonempty (p_type p) \<and> p_amount p \<noteq> None \<and> nonempty (p_description p) \<longrightarrow>
            createTransaction d (Some uid) now today new_id p = Inl (HttpError 400 CategoryNotOwned)) \<and>
         (tid \<noteq> [] \<longrightarrow>
            updateTransaction d (Some uid) now tid p = Inl (HttpError 400 CategoryNotOwned)) \<and>
         state_after d (createTransaction d (Some uid) now today new_id p) = d \<and>
         state_after d (updateTransaction d (Some uid) now tid p) = d"
proof -
  have no: "\<not> category_owned d uid cid"
    by (rule not_category_owned [OF foreign])
  have given: "nonempty (p_category_id p)"
    by (simp add: nonempty_def cat ne)
  have c1: "createTransaction d (Some uid) now today new_id p = Inl (HttpError 400 CategoryNotOwned)"
    if "nonempty (p_type p)" "p_amount p \<noteq> None" "nonempty (p_description p)"
    using that no given by (simp add: createTransaction_def requireAuth_def requireFields_def cat)
  have c2: "\<exists>e. createTransaction d (Some uid) now today new_id p = Inl e"
    using no given
    by (simp add: createTransaction_def requireAuth_def cat split: option.splits)
  have u1: "updateTransaction d (Some uid) now tid p = Inl (HttpError 400 CategoryNotOwned)"
    if "tid \<noteq> []"
    using that no given by (simp add: updateTransaction_def requireAuth_def cat)
  have u2: "\<exists>e. updateTransaction d (Some uid) now tid p = Inl e"
    using no given by (simp add: updateTransaction_def requireAuth_def cat)
  from c2 have s1: "state_after d (createTransaction d (Some uid) now today new_id p) = d"
    by (auto simp: state_after_def)
  from u2 have s2: "state_after d (updateTransaction d (Some uid) now tid p) = d"
    by (auto simp: state_after_def)
  show ?thesis
    using c1 u1 s1 s2 by blast
qed

text \<open>
  The claim as stated fails twice. A create that names the category \<open>''c2''\<close> of another
  user but lacks the required fields is answered with the 'missing fields' error, not the
  reference error. A complete create whose \<open>category_id\<close> is the empty string, which
  names no category, is not checked at all: the row is stored, without category.
\<close>

theorem foreign_category_counterexample:
  "''c2'' \<in> set (map c_id (categories_tbl ex_db)) \<and>
   list_all (\<lambda>c. c_id c = ''c2'' \<longrightarrow> c_user_id c \<noteq> ''u1'') (categories_tbl ex_db) \<and>
   createTransaction ex_db (Some ''u1'') 9 9 ''t9'' ex_foreign_ref =
     Inl (HttpError 400 (MissingFields [''type'', ''amount'', ''description''])) \<and>
   createTransaction ex_db (Some ''u1'') 9 9 ''t9'' ex_foreign_ref \<noteq> Inl (HttpError 400 CategoryNotOwned) \<and>
   [] \<notin> set (map c_id (categories_tbl ex_db)) \<and>
   transactions_tbl (state_after ex_db (createTransaction ex_db (Some ''u1'') 9 9 ''t9'' ex_empty_ref)) =
     transactions_tbl ex_db @ [new_transaction ''u1'' 9 9 ''t9'' ex_empty_ref] \<and>
   category_id (new_transaction ''u1'' 9 9 ''t9'' ex_empty_ref) = None"
proof -
  have a: "''c2'' \<in> set (map c_id (categories_tbl ex_db))"
    "list_all (\<lambda>c. c_id c = ''c2'' \<longrightarrow> c_user_id c \<noteq> ''u1'') (categories_tbl ex_db)"
    "[] \<notin> set (map c_id (categories_tbl ex_db))"
    by (simp_all add: ex_db_def ex_food_def ex_salary_def)
  have b: "createTransaction ex_db (Some ''u1'') 9 9 ''t9'' ex_foreign_ref =
     Inl (HttpError 400 (MissingFields [''type'', ''amount'', ''description'']))"
    by (simp add: createTransaction_def requireAuth_def requireFields_def nonempty_def
        ex_foreign_ref_def ex_empty_payload_def)
  have row: "new_transaction ''u1'' 9 9 ''t9'' ex_empty_ref =
     \<lparr>t_id = ''t9'', user_id = ''u1'', category_id = None, t_type = ''income'', amount = 5,
      description = ''gift'', date = 9, tags = [], t_notes = None, is_paid = False, paid_at = None,
      created_at = 9\<rparr>"
    by (simp add: new_transaction_def nonempty_def ex_empty_ref_def ex_empty_payload_def)
  have ins: "insert_transaction ex_db ''u1'' (new_transaction ''u1'' 9 9 ''t9'' ex_empty_ref) =
     Inr (new_transaction ''u1'' 9 9 ''t9'' ex_empty_ref,
          ex_db\<lparr>transactions_tbl := transactions_tbl ex_db @ [new_transaction ''u1'' 9 9 ''t9'' ex_empty_ref]\<rparr>)"
    unfolding row
    by (simp add: insert_transaction_def store_check_tx_def valid_type_def ex_db_def
        ex_income_def ex_foreign_def ex_expense_def ex_groceries_def)
  have fields: "requireFields [(''type'', nonempty (p_type ex_empty_ref)),
      (''amount'', p_amount ex_empty_ref \<noteq> None),
      (''description'', nonempty (p_description ex_empty_ref))] = None"
    "\<not> nonempty (p_category_id ex_empty_ref)"
    by (simp_all add: requireFields_def nonempty_def ex_empty_ref_def ex_empty_payload_def)
  have c: "transactions_tbl (state_after ex_db (createTransaction ex_db (Some ''u1'') 9 9 ''t9'' ex_empty_ref)) =
     transactions_tbl ex_db @ [new_transaction ''u1'' 9 9 ''t9'' ex_empty_ref]"
    by (simp add: createTransaction_def requireAuth_def fields ins state_after_def del: not_None_eq)
  have d: "category_id (new_transaction ''u1'' 9 9 ''t9'' ex_empty_ref) = None"
    by (simp add: row)
  have e: "createTransaction ex_db (Some ''u1'') 9 9 ''t9'' ex_foreign_ref \<noteq> Inl (HttpError 400 CategoryNotOwned)"
    by (simp add: b)
  show ?thesis
    by (intro conjI) (fact a b c d e)+
qed

theorem foreign_category_rejected_witness:
  "createTransaction ex_db (Some ''u1'') 9 9 ''t9''
      (ex_empty_ref\<lparr>p_category_id := Some ''c2''\<rparr>) = Inl (HttpError 400 CategoryNotOwned) \<and>
   updateTransaction ex_db (Some ''u1'') 9 ''t1''
      (ex_empty_ref\<lparr>p_category_id := Some ''c2''\<rparr>) = Inl (HttpError 400 CategoryNotOwned) \<and>
   state_after ex_db (createTransaction ex_db (Some ''u1'') 9 9 ''t9''
      (ex_empty_ref\<lparr>p_category_id := Some ''c2''\<rparr>)) = ex_db"
proof -
  let ?p = "ex_empty_ref\<lparr>p_category_id := Some ''c2''\<rparr>"
  have cat: "p_category_id ?p = Some ''c2''" by simp
  have ne: "''c2'' \<noteq> []" by simp
  have foreign: "list_all (\<lambda>c. c_id c = ''c2'' \<longrightarrow> c_user_id c \<noteq> ''u1'') (categories_tbl ex_db)"
    by (simp add: ex_db_def ex_food_def ex_salary_def)
  have given: "nonempty (p_type ?p) \<and> p_amount ?p \<noteq> None \<and> nonempty (p_description ?p)"
    by (simp add: nonempty_def ex_empty_ref_def ex_empty_payload_def)
  have tid: "''t1'' \<noteq> []" by simp
  note r = foreign_category_rejected [OF cat ne foreign, of 9 9 "''t9''" "''t1''"]
  from r given have a: "createTransaction ex_db (Some ''u1'') 9 9 ''t9'' ?p = Inl (HttpError 400 CategoryNotOwned)"
    by blast
  from r tid have b: "updateTransaction ex_db (Some ''u1'') 9 ''t1'' ?p = Inl (HttpError 400 CategoryNotOwned)"
    by blast
  from r have c: "state_after ex_db (createTransaction ex_db (Some ''u1'') 9 9 ''t9'' ?p) = ex_db"
    by blast
  show ?thesis
    by (intro conjI) (fact a b c)+
qed

section \<open>Filters and the pagination window\<close>

text \<open>
  In the non-staff branch the filters are part of the query, so the store filters the
  caller's rows, orders them and then cuts the window.
\<close>

lemma nonstaff_filters_before_window:
  assumes "staff_lookup d uid = Inr False"
  shows "\<exists>rows. transactions d (Some uid) q = Inr rows \<and>
     map tx rows = range_window (offset_of q) (limit_of q)
       (order_transactions (apply_filters q (filter (\<lambda>t. user_id t = uid) (transactions_tbl d))))"
proof -
  from staff_lookup_own_info [OF assms] obtain p where
    p: "own_info d uid = Some (select_info p)" by blast
  show ?thesis
    by (simp add: transactions_def requireAuth_def assms p Let_def rls_transactions_def comp_def)
qed

lemma ex_order:
  "order_transactions (transactions_tbl ex_db) = [ex_groceries, ex_expense, ex_foreign, ex_income]"
  by (simp add: order_transactions_def ex_db_def ex_income_def ex_foreign_def ex_expense_def
      ex_groceries_def)

lemma ex_income_filter:
  "apply_filters ex_income_page [ex_groceries] = []"
  "apply_filters ex_income_page (transactions_tbl ex_db) = [ex_income, ex_foreign]"
  by (simp_all add: apply_filters_def date_filter_def nonempty_def ex_income_page_def ex_query_def
      ex_db_def ex_income_def ex_foreign_def ex_expense_def ex_groceries_def)

text \<open>In both branches every returned row lies within the date bounds of the query.\<close>

lemma apply_filters_in_range:
  "t \<in> set (apply_filters q rows) \<Longrightarrow>
   (\<forall>s. start_date q = Some s \<longrightarrow> s \<le> date t) \<and> (\<forall>e. end_date q = Some e \<longrightarrow> date t \<le> e)"
  by (auto simp: apply_filters_def date_filter_def Let_def split: option.splits if_splits)

lemma listing_in_date_range:
  assumes "transactions d auth q = Inr rows" and "v \<in> set rows"
  shows "(\<forall>s. start_date q = Some s \<longrightarrow> s \<le> date (tx v)) \<and>
         (\<forall>e. end_date q = Some e \<longrightarrow> date (tx v) \<le> e)"
proof -
  from assms(1) obtain uid staff where auth: "auth = Some uid" and staff: "staff_lookup d uid = Inr staff"
    by (auto simp: transactions_def requireAuth_def split: option.splits sum.splits)
  show ?thesis
  proof (cases staff)
    case True
    with assms auth staff have "tx v \<in> set (apply_filters q
        (range_window (offset_of q) (limit_of q) (order_transactions (transactions_tbl d))))"
      by (auto simp: transactions_def requireAuth_def Let_def)
    then show ?thesis by (rule apply_filters_in_range)
  next
    case False
    with assms auth staff have "tx v \<in> set (range_window (offset_of q) (limit_of q)
        (order_transactions (apply_filters q
           (filter (\<lambda>t. user_id t = uid) (rls_transactions uid (transactions_tbl d))))))"
      by (auto simp: transactions_def requireAuth_def Let_def split: option.splits)
    then have "tx v \<in> set (apply_filters q
        (filter (\<lambda>t. user_id t = uid) (rls_transactions uid (transactions_tbl d))))"
      using set_range_window [of "offset_of q" "limit_of q" "order_transactions (apply_filters q
        (filter (\<lambda>t. user_id t = uid) (rls_transactions uid (transactions_tbl d))))"]
      by (auto simp: set_order_transactions)
    then show ?thesis by (rule apply_filters_in_range)
  qed
qed

text \<open>
  Claim C8 at a concrete request. The staff branch asks the store for the window first
  and filters the fetched page afterwards. For the staff caller \<open>''u3''\<close> and the query
  \<open>?type=income&limit=1\<close> the page holds the newest row, an expense, and the response is
  empty, although the newest income row is what filtering before the window gives.
\<close>

theorem staff_window_before_filters:
  "staff_lookup ex_db ''u3'' = Inr True \<and>
   transactions ex_db (Some ''u3'') ex_income_page = Inr [] \<and>
   range_window (offset_of ex_income_page) (limit_of ex_income_page)
     (order_transactions (apply_filters ex_income_page (transactions_tbl ex_db))) = [ex_foreign]"
proof -
  have lim: "limit_of ex_income_page = Suc 0" "offset_of ex_income_page = 0"
    by (simp_all add: limit_of_def offset_of_def ex_income_page_def ex_query_def)
  have fetched: "range_window 0 (Suc 0) (order_transactions (transactions_tbl ex_db)) = [ex_groceries]"
    by (simp add: ex_order range_window_def)
  have a: "transactions ex_db (Some ''u3'') ex_income_page = Inr []"
    by (simp add: transactions_def requireAuth_def ex_staff lim fetched ex_income_filter Let_def)
  have "order_transactions [ex_income, ex_foreign] = [ex_foreign, ex_income]"
    by (simp add: order_transactions_def ex_income_def ex_foreign_def)
  then have b: "range_window (offset_of ex_income_page) (limit_of ex_income_page)
     (order_transactions (apply_filters ex_income_page (transactions_tbl ex_db))) = [ex_foreign]"
    by (simp add: lim ex_income_filter range_window_def)
  show ?thesis
    by (intro conjI) (fact ex_staff a b)+
qed


section \<open>Reading a row of another user by id\<close>

text \<open>
  Claim C9. For a caller who is not staff, \<open>GET /categories/:id\<close> and
  \<open>GET /transactions/:id\<close> give the same result for the id of a row owned by another
  user as for an id that no row has; when the caller's profile is readable this result
  is the 404 error of the handler. The ids are path segments, hence not empty.
\<close>

theorem foreign_row_indistinguishable:
  assumes "staff_lookup d uid \<noteq> Inr True"
    and "cid1 \<noteq> []" and "cid2 \<noteq> []" and "tid1 \<noteq> []" and "tid2 \<noteq> []"
    and "cid1 \<in> set (map c_id (categories_tbl d))"
    and "list_all (\<lambda>c. c_id c = cid1 \<longrightarrow> c_user_id c \<noteq> uid) (categories_tbl d)"
    and "cid2 \<notin> set (map c_id (categories_tbl d))"
    and "tid1 \<in> set (map t_id (transactions_tbl d))"
    and "list_all (\<lambda>t. t_id t = tid1 \<longrightarrow> user_id t \<noteq> uid) (transactions_tbl d)"
    and "tid2 \<notin> set (map t_id (transactions_tbl d))"
  shows "getCategory d (Some uid) cid1 = getCategory d (Some uid) cid2 \<and>
         getTransaction d (Some uid) tid1 = getTransaction d (Some uid) tid2 \<and>
         (staff_lookup d uid = Inr False \<longrightarrow>
            getCategory d (Some uid) cid1 = Inl (HttpError 404 CategoryNotFound) \<and>
            getTransaction d (Some uid) tid1 = Inl (HttpError 404 TransactionNotFound))"
proof -
  have c1: "single (filter (\<lambda>c. c_id c = cid1 \<and> c_user_id c = uid) (rls_categories uid (categories_tbl d))) = None"
    using assms(7) by (intro single_filter_None) (auto simp: list_all_iff rls_categories_def)
  have c2: "single (filter (\<lambda>c. c_id c = cid2 \<and> c_user_id c = uid) (rls_categories uid (categories_tbl d))) = None"
    using assms(8) by (intro single_filter_None) (auto simp: rls_categories_def)
  have t1: "single (filter (\<lambda>t. t_id t = tid1 \<and> user_id t = uid) (rls_transactions uid (transactions_tbl d))) = None"
    using assms(10) by (intro single_filter_None) (auto simp: list_all_iff rls_transactions_def)
  have t2: "single (filter (\<lambda>t. t_id t = tid2 \<and> user_id t = uid) (rls_transactions uid (transactions_tbl d))) = None"
    using assms(11) by (intro single_filter_None) (auto simp: rls_transactions_def)
  consider (err) e where "staff_lookup d uid = Inl e" | (ns) "staff_lookup d uid = Inr False"
    using assms(1) by (cases "staff_lookup d uid") auto
  then show ?thesis
  proof cases
    case err
    then show ?thesis
      using assms(2-5) by (simp add: getCategory_def getTransaction_def requireAuth_def)
  next
    case ns
    then show ?thesis
      using assms(2-5) by (simp add: getCategory_def getTransaction_def requireAuth_def c1 c2 t1 t2)
  qed
qed

theorem foreign_row_indistinguishable_witness:
  "getCategory ex_db (Some ''u1'') ''c2'' = getCategory ex_db (Some ''u1'') ''c9'' \<and>
   getTransaction ex_db (Some ''u1'') ''t3'' = getTransaction ex_db (Some ''u1'') ''t9'' \<and>
   getCategory ex_db (Some ''u1'') ''c2'' = Inl (HttpError 404 CategoryNotFound) \<and>
   getTransaction ex_db (Some ''u1'') ''t3'' = Inl (HttpError 404 TransactionNotFound) \<and>
   ''c2'' \<in> set (map c_id (categories_tbl ex_db)) \<and>
   ''t3'' \<in> set (map t_id (transactions_tbl ex_db))"
proof -
  have h: "staff_lookup ex_db ''u1'' = Inr False"
    by (simp add: staff_lookup_def rls_users_def ex_db_def ex_alice_def ex_bob_def ex_carol_def)
  then have h1: "staff_lookup ex_db ''u1'' \<noteq> Inr True"
    by simp
  have c: "''c2'' \<in> set (map c_id (categories_tbl ex_db))"
    "list_all (\<lambda>c. c_id c = ''c2'' \<longrightarrow> c_user_id c \<noteq> ''u1'') (categories_tbl ex_db)"
    "''c9'' \<notin> set (map c_id (categories_tbl ex_db))"
    by (simp_all add: ex_db_def ex_food_def ex_salary_def)
  have t: "''t3'' \<in> set (map t_id (transactions_tbl ex_db))"
    "list_all (\<lambda>t. t_id t = ''t3'' \<longrightarrow> user_id t \<noteq> ''u1'') (transactions_tbl ex_db)"
    "''t9'' \<notin> set (map t_id (transactions_tbl ex_db))"
    by (simp_all add: ex_db_def ex_income_def ex_foreign_def ex_expense_def ex_groceries_def)
  have ne: "''c2'' \<noteq> []" "''c9'' \<noteq> []" "''t3'' \<noteq> []" "''t9'' \<noteq> []"
    by simp_all
  note r = foreign_row_indistinguishable [OF h1 ne c t]
  from r h have nf: "getCategory ex_db (Some ''u1'') ''c2'' = Inl (HttpError 404 CategoryNotFound)"
    "getTransaction ex_db (Some ''u1'') ''t3'' = Inl (HttpError 404 TransactionNotFound)"
    by blast+
  from r have eq: "getCategory ex_db (Some ''u1'') ''c2'' = getCategory ex_db (Some ''u1'') ''c9''"
    "getTransaction ex_db (Some ''u1'') ''t3'' = getTransaction ex_db (Some ''u1'') ''t9''"
    by blast+
  show ?thesis
    by (intro conjI) (fact eq nf c(1) t(1))+
qed

section \<open>Who can change a staff flag\<close>





















end
